theory Spec2Isabelle
  imports Complex_Main "HOL-Library.Multiset" "HOL-Library.Log_Nat"
begin

section \<open>Data model of \<open>app/page.tsx\<close>\<close>

text \<open>
  The interfaces \<open>Todo\<close> and \<open>JournalEntry\<close> of the source, field by field. The field
  \<open>text\<close> of a todo is called \<open>todo_text\<close> here. A rating is a JavaScript number; the
  user interface only ever stores the integers 1 to 5 and the initial 0.
\<close>

datatype priority = High | Medium | Low

record Todo =
  todo_text :: string
  completed :: bool
  priority :: priority

record Ratings =
  overall :: int
  energy :: int
  productivity :: int
  mood :: int

record JournalEntry =
  date :: string
  timestamp :: string
  todos :: "Todo list"
  mainGoal :: string
  accomplishments :: string
  goodThings :: string
  grateful :: string
  kindness :: string
  ratings :: Ratings
  lessons :: string
  improvements :: string
  challenges :: string
  emotions :: string
  futureImprovements :: string
  tomorrowGoals :: string
  affirmation :: string

text \<open>
  The component state that the store operations read and write: the working entry
  (\<open>entry\<close>), the saved entries (\<open>savedEntries\<close>), and the array whose JSON text
  \<open>localStorage\<close> holds under the key \<open>journalEntries\<close> (\<open>None\<close>: no such item).
\<close>

record app_state =
  entry :: JournalEntry
  savedEntries :: "JournalEntry list"
  stored :: "JournalEntry list option"

text \<open>
  The module constant \<open>initialEntry\<close>: a blank entry. Its date and timestamp are read
  from the clock when the module is loaded; they are the parameters here.
\<close>

definition initialEntry :: "string \<Rightarrow> string \<Rightarrow> JournalEntry" where
  "initialEntry today now =
     \<lparr>date = today, timestamp = now, todos = [], mainGoal = [], accomplishments = [],
      goodThings = [], grateful = [], kindness = [],
      ratings = \<lparr>overall = 0, energy = 0, productivity = 0, mood = 0\<rparr>,
      lessons = [], improvements = [], challenges = [], emotions = [],
      futureImprovements = [], tomorrowGoals = [], affirmation = []\<rparr>"

subsection \<open>JavaScript values\<close>

text \<open>
  The result of \<open>JSON.parse\<close> has type \<open>any\<close>. The only array the source reads element
  by element is \<open>importedData.entries\<close>, which it types as \<open>JournalEntry[]\<close> without a
  check of the elements; the model follows that annotation, so an array holds journal
  entries. An object is the list of its own properties. The value of a number literal is
  never read by the code. \<open>JUndefined\<close> and \<open>JFunction\<close> are not results of
  \<open>JSON.parse\<close>, but results of reading a property.
\<close>

datatype jsvalue =
    JUndefined
  | JNull
  | JBool bool
  | JNumber int
  | JString string
  | JArray "JournalEntry list"
  | JObject "(string \<times> jsvalue) list"
  | JFunction

datatype js_error =
    SyntaxError
  | TypeError
  | Error string

text \<open>\<open>!v\<close> is \<open>\<not> truthy v\<close>.\<close>

fun truthy :: "jsvalue \<Rightarrow> bool" where
  "truthy JUndefined = False"
| "truthy JNull = False"
| "truthy (JBool b) = b"
| "truthy (JNumber n) = (n \<noteq> 0)"
| "truthy (JString s) = (s \<noteq> [])"
| "truthy (JArray es) = True"
| "truthy (JObject kvs) = True"
| "truthy JFunction = True"

fun isArray :: "jsvalue \<Rightarrow> bool" where
  "isArray (JArray es) = True"
| "isArray v = False"

text \<open>
  \<open>importedData.entries\<close>: reading the property of \<open>null\<close> throws a TypeError; an
  array inherits the method \<open>Array.prototype.entries\<close>; a boolean, a number and a
  string have no such property.
\<close>

fun get_entries :: "jsvalue \<Rightarrow> js_error + jsvalue" where
  "get_entries JUndefined = Inl TypeError"
| "get_entries JNull = Inl TypeError"
| "get_entries (JObject kvs) =
     (case map_of kvs ''entries'' of None \<Rightarrow> Inr JUndefined | Some v \<Rightarrow> Inr v)"
| "get_entries (JArray es) = Inr JFunction"
| "get_entries v = Inr JUndefined"

fun elements :: "jsvalue \<Rightarrow> JournalEntry list" where
  "elements (JArray es) = es"
| "elements v = []"

section \<open>Entry store\<close>

subsection \<open>saveEntry\<close>

text \<open>\<open>Array.prototype.findIndex\<close>: the first index whose element satisfies the
  predicate, \<open>-1\<close> when there is none.\<close>

fun findIndex :: "('a \<Rightarrow> bool) \<Rightarrow> 'a list \<Rightarrow> int" where
  "findIndex p [] = - 1"
| "findIndex p (x # xs) =
     (if p x then 0 else (let i = findIndex p xs in if i < 0 then - 1 else i + 1))"

datatype save_outcome = Saved | Declined

text \<open>
  \<open>saveEntry\<close>, with what it reads from outside the component as parameters: the value
  \<open>init\<close> of the module constant \<open>initialEntry\<close>, the string \<open>now\<close> that
  \<open>new Date().toLocaleString()\<close> returns, and the answer \<open>confirmOverwrite\<close> of
  \<open>window.confirm\<close>, which is asked for only when the date is already saved.
\<close>

definition saveEntry ::
  "JournalEntry \<Rightarrow> string \<Rightarrow> bool \<Rightarrow> app_state \<Rightarrow> app_state \<times> save_outcome" where
  "saveEntry init now confirmOverwrite s =
     (let updatedEntry = (entry s)\<lparr>timestamp := now\<rparr>;
          existingIndex = findIndex (\<lambda>e. date e = date (entry s)) (savedEntries s)
      in if existingIndex \<ge> 0 then
           (if \<not> confirmOverwrite then (s, Declined)
            else
              (let newEntries = (savedEntries s)[nat existingIndex := updatedEntry]
               in (\<lparr>entry = init, savedEntries = newEntries,
                     stored = Some newEntries\<rparr>, Saved)))
         else
           (let newEntries = savedEntries s @ [updatedEntry]
            in (\<lparr>entry = init, savedEntries = newEntries,
                  stored = Some newEntries\<rparr>, Saved)))"

text \<open>
  A session of saves: before each one the user has edited the working entry to \<open>e\<close>;
  the save happens at time \<open>now\<close> and a conflict is answered with \<open>ok\<close>.
\<close>

fun upserts ::
  "JournalEntry \<Rightarrow> (JournalEntry \<times> string \<times> bool) list \<Rightarrow> app_state \<Rightarrow> app_state" where
  "upserts init [] s = s"
| "upserts init ((e, now, ok) # ops) s =
     upserts init ops (fst (saveEntry init now ok (s\<lparr>entry := e\<rparr>)))"

subsection \<open>exportData\<close>

text \<open>
  The object \<open>dataToExport\<close> and the name of the downloaded file. \<open>exportISO\<close> and
  \<open>nameISO\<close> are the results of the two calls of \<open>new Date().toISOString()\<close>;
  \<open>split("T")[0]\<close> is the text before the first \<open>T\<close>. The state is not touched.
\<close>

definition dataToExport :: "string \<Rightarrow> app_state \<Rightarrow> jsvalue" where
  "dataToExport exportISO s =
     JObject [(''exportDate'', JString exportISO),
              (''totalEntries'', JNumber (int (length (savedEntries s)))),
              (''entries'', JArray (savedEntries s))]"

definition exportData :: "string \<Rightarrow> string \<Rightarrow> app_state \<Rightarrow> jsvalue \<times> string \<times> nat" where
  "exportData exportISO nameISO s =
     (dataToExport exportISO s,
      ''journal-entries-'' @ takeWhile (\<lambda>c. c \<noteq> CHR ''T'') nameISO @ ''.json'',
      length (savedEntries s))"

subsection \<open>importData\<close>

text \<open>
  The comparator of the sort, \<open>new Date(a.date).getTime() - new Date(b.date).getTime()\<close>.
  The time value of a date string is the platform's: \<open>getTime\<close> is a parameter, \<open>None\<close>
  where JavaScript gives \<open>NaN\<close>. A difference with \<open>NaN\<close> is \<open>NaN\<close>.
\<close>

definition compareDates ::
  "(string \<Rightarrow> int option) \<Rightarrow> JournalEntry \<Rightarrow> JournalEntry \<Rightarrow> int option" where
  "compareDates getTime a b =
     (case getTime (date a) of
        None \<Rightarrow> None
      | Some x \<Rightarrow> (case getTime (date b) of None \<Rightarrow> None | Some y \<Rightarrow> Some (x - y)))"

text \<open>
  \<open>Array.prototype.sort\<close> with a comparator. ECMAScript reads a \<open>NaN\<close> result of the
  comparator as \<open>+0\<close> and asks for a stable sort; with a consistent comparator the result
  is then determined, and it is the one of this insertion sort. With an inconsistent
  comparator the standard leaves the order to the implementation, and the insertion sort
  is one possible choice.
\<close>

definition sortCompare :: "('a \<Rightarrow> 'a \<Rightarrow> int option) \<Rightarrow> 'a \<Rightarrow> 'a \<Rightarrow> int" where
  "sortCompare comparefn x y = (case comparefn x y of None \<Rightarrow> 0 | Some v \<Rightarrow> v)"

fun sortInsert :: "('a \<Rightarrow> 'a \<Rightarrow> int option) \<Rightarrow> 'a \<Rightarrow> 'a list \<Rightarrow> 'a list" where
  "sortInsert comparefn x [] = [x]"
| "sortInsert comparefn x (y # ys) =
     (if sortCompare comparefn x y \<le> 0 then x # y # ys
      else y # sortInsert comparefn x ys)"

definition array_sort :: "('a \<Rightarrow> 'a \<Rightarrow> int option) \<Rightarrow> 'a list \<Rightarrow> 'a list" where
  "array_sort comparefn xs = foldr (sortInsert comparefn) xs []"

datatype import_outcome =
    NoFile
  | Imported nat nat
  | ImportError

text \<open>
  The body of the \<open>try\<close> block of \<open>reader.onload\<close>. \<open>parsed\<close> is the outcome of
  \<open>JSON.parse\<close> on the file's text, \<open>Inl SyntaxError\<close> when it throws. The result is the
  merged array with the two numbers of the success message, or the error thrown.
\<close>

definition importTry ::
  "(string \<Rightarrow> int option) \<Rightarrow> js_error + jsvalue \<Rightarrow> JournalEntry list \<Rightarrow>
     js_error + (JournalEntry list \<times> nat \<times> nat)" where
  "importTry getTime parsed saved =
     (case parsed of
        Inl e \<Rightarrow> Inl e
      | Inr importedData \<Rightarrow>
          (case get_entries importedData of
             Inl e \<Rightarrow> Inl e
           | Inr ents \<Rightarrow>
               if \<not> truthy ents \<or> \<not> isArray ents then Inl (Error ''Invalid file format'')
               else
                 (let existingDates = set (map date saved);
                      newEntries = filter (\<lambda>e. date e \<notin> existingDates) (elements ents);
                      mergedEntries = array_sort (compareDates getTime) (saved @ newEntries)
                  in Inr (mergedEntries, length newEntries,
                          length (elements ents) - length newEntries))))"

text \<open>
  \<open>importData\<close>: \<open>file\<close> is \<open>None\<close> when no file was chosen. The \<open>catch\<close> block turns
  every error into the same alert and leaves the state alone.
\<close>

definition importData ::
  "(string \<Rightarrow> int option) \<Rightarrow> (js_error + jsvalue) option \<Rightarrow> app_state \<Rightarrow>
     app_state \<times> import_outcome" where
  "importData getTime file s =
     (case file of
        None \<Rightarrow> (s, NoFile)
      | Some parsed \<Rightarrow>
          (case importTry getTime parsed (savedEntries s) of
             Inl e \<Rightarrow> (s, ImportError)
           | Inr (mergedEntries, imported, skipped) \<Rightarrow>
               (s\<lparr>savedEntries := mergedEntries, stored := Some mergedEntries\<rparr>,
                Imported imported skipped)))"

subsection \<open>Loading at start\<close>

text \<open>
  The first effect of the component. \<open>saved\<close> and \<open>savedTheme\<close> are what
  \<open>localStorage.getItem\<close> returns for the two keys, \<open>parsed\<close> is the outcome of
  \<open>JSON.parse(saved)\<close>, consulted only when \<open>saved\<close> is a non-empty string. The effect
  has no \<open>try\<close>: an error of \<open>JSON.parse\<close> leaves it. Otherwise the result is the value
  of \<open>savedEntries\<close> and of \<open>isDarkMode\<close> after the effect; the initial states are the
  empty array and \<open>true\<close>. The parsed value is stored as it is.
\<close>

definition load ::
  "string option \<Rightarrow> js_error + jsvalue \<Rightarrow> string option \<Rightarrow> js_error + (jsvalue \<times> bool)" where
  "load saved parsed savedTheme =
     (let isDarkMode = (case savedTheme of
                          None \<Rightarrow> True
                        | Some t \<Rightarrow> if t = [] then True else t = ''dark'')
      in case saved of
           None \<Rightarrow> Inr (JArray [], isDarkMode)
         | Some txt \<Rightarrow>
             if txt = [] then Inr (JArray [], isDarkMode)
             else (case parsed of
                     Inl e \<Rightarrow> Inl e
                   | Inr v \<Rightarrow> Inr (v, isDarkMode)))"

section \<open>Numbers\<close>

text \<open>
  A JavaScript number is an IEEE 754 binary64 value. Counts, ratings and their sums are
  integers far below \<open>2^53\<close> and are exact; a quotient or a product is the exact result
  rounded to 53 significant bits, ties to the even significand. \<open>exponent x\<close> is the
  integer \<open>e\<close> with \<open>2^e \<le> x < 2^(e+1)\<close> for a positive \<open>x\<close>, found from the bit lengths
  of numerator and denominator, and \<open>binary64 x\<close> is \<open>x\<close> rounded to a multiple of
  \<open>2^(e-52)\<close>. The exponent limits of the format are left out: every value computed here
  lies between \<open>2^(-1022)\<close> and \<open>2^1024\<close> in magnitude, or is zero.
\<close>

definition roundTiesToEven :: "rat \<Rightarrow> int" where
  "roundTiesToEven y =
     (let f = \<lfloor>y\<rfloor>; r = y - of_int f
      in if r < 1 / 2 then f else if 1 / 2 < r then f + 1 else if even f then f else f + 1)"

definition exponent :: "rat \<Rightarrow> int" where
  "exponent x =
     (let p = fst (quotient_of x); q = snd (quotient_of x); k = bitlen p - bitlen q
      in if power_int 2 k \<le> x then k else k - 1)"

definition binary64 :: "rat \<Rightarrow> rat" where
  "binary64 x =
     (if x = 0 then 0
      else (let u = power_int 2 (exponent \<bar>x\<bar> - 52)
            in of_int (roundTiesToEven (x / u)) * u))"

text \<open>
  The operators \<open>/\<close> and \<open>*\<close> on numbers. The source divides only behind a test that the
  divisor is positive.
\<close>

definition divide_num :: "rat \<Rightarrow> rat \<Rightarrow> rat" where
  "divide_num a b = binary64 (a / b)"

definition times_num :: "rat \<Rightarrow> rat \<Rightarrow> rat" where
  "times_num a b = binary64 (a * b)"

text \<open>\<open>Math.round\<close>: the nearest integer, the larger one of two equally near.\<close>

definition Math_round :: "rat \<Rightarrow> int" where
  "Math_round x = \<lfloor>x + 1 / 2\<rfloor>"

section \<open>Stats engine\<close>

subsection \<open>getProductivityStats\<close>

text \<open>
  The object that \<open>getProductivityStats\<close> returns for the working entry. Its field
  \<open>completed\<close> is called \<open>completedCount\<close>, and the local constants have the prefix \<open>n_\<close>.
\<close>

record ProductivityStats =
  total :: nat
  completedCount :: nat
  completionRate :: int
  highPriority :: nat
  completedHigh :: nat
  highPriorityRate :: int

definition getProductivityStats :: "JournalEntry \<Rightarrow> ProductivityStats" where
  "getProductivityStats e =
     (let n_total = length (todos e);
          n_completed = length (filter (\<lambda>todo. completed todo) (todos e));
          n_highPriority = length (filter (\<lambda>todo. priority todo = High) (todos e));
          n_completedHigh =
            length (filter (\<lambda>todo. priority todo = High \<and> completed todo) (todos e))
      in \<lparr>total = n_total,
          completedCount = n_completed,
          completionRate =
            (if n_total > 0
             then Math_round (times_num (divide_num (of_nat n_completed) (of_nat n_total)) 100)
             else 0),
          highPriority = n_highPriority,
          completedHigh = n_completedHigh,
          highPriorityRate =
            (if n_highPriority > 0
             then Math_round
               (times_num (divide_num (of_nat n_completedHigh) (of_nat n_highPriority)) 100)
             else 0)\<rparr>)"

subsection \<open>Rating averages\<close>

text \<open>
  \<open>x.toFixed(1)\<close> is the decimal numeral of \<open>n / 10\<close> for the integer \<open>n\<close> that makes
  \<open>n / 10\<close> nearest to \<open>x\<close>, the larger \<open>n\<close> of two equally near ones (for a negative
  \<open>x\<close>, the sign is put before the numeral of \<open>-x\<close>); \<open>toFixed1 x\<close> is that \<open>n\<close>.
  \<open>Number\<close> of the numeral is the binary64 value nearest to \<open>n / 10\<close>.
\<close>

definition toFixed1 :: "rat \<Rightarrow> int" where
  "toFixed1 x = (if x < 0 then - \<lfloor>- x * 10 + 1 / 2\<rfloor> else \<lfloor>x * 10 + 1 / 2\<rfloor>)"

definition Number_tenths :: "int \<Rightarrow> rat" where
  "Number_tenths n = binary64 (of_int n / 10)"

text \<open>
  The rating averages block of the analytics card: the four numbers it shows, or \<open>None\<close>
  where it returns \<open>null\<close>. The fields are the local constants \<open>avgOverall\<close>,
  \<open>avgEnergy\<close>, \<open>avgProductivity\<close> and \<open>avgMood\<close>.
\<close>

record rating_averages =
  avg_overall :: rat
  avg_energy :: rat
  avg_productivity :: rat
  avg_mood :: rat

definition ratingAverages :: "app_state \<Rightarrow> rating_averages option" where
  "ratingAverages s =
     (let allEntries =
            filter (\<lambda>e. overall (ratings e) > 0 \<or> energy (ratings e) > 0 \<or>
                        productivity (ratings e) > 0 \<or> mood (ratings e) > 0)
              (savedEntries s @ [entry s])
      in if length allEntries = 0 then None
         else Some
           \<lparr>avg_overall = Number_tenths (toFixed1 (divide_num
                (of_int (foldl (\<lambda>sum e. sum + overall (ratings e)) 0 allEntries))
                (of_nat (length allEntries)))),
            avg_energy = Number_tenths (toFixed1 (divide_num
                (of_int (foldl (\<lambda>sum e. sum + energy (ratings e)) 0 allEntries))
                (of_nat (length allEntries)))),
            avg_productivity = Number_tenths (toFixed1 (divide_num
                (of_int (foldl (\<lambda>sum e. sum + productivity (ratings e)) 0 allEntries))
                (of_nat (length allEntries)))),
            avg_mood = Number_tenths (toFixed1 (divide_num
                (of_int (foldl (\<lambda>sum e. sum + mood (ratings e)) 0 allEntries))
                (of_nat (length allEntries))))\<rparr>)"

text \<open>
  In the specification's words: the mean of a rating over a population, an entry with at
  least one rating that is not zero, and an entry whose ratings are in the range 0 to 5
  of the data model.
\<close>

definition mean :: "('a \<Rightarrow> int) \<Rightarrow> 'a list \<Rightarrow> rat" where
  "mean f xs = of_int (sum_list (map f xs)) / of_nat (length xs)"

definition rated :: "JournalEntry \<Rightarrow> bool" where
  "rated e =
     (overall (ratings e) \<noteq> 0 \<or> energy (ratings e) \<noteq> 0 \<or>
      productivity (ratings e) \<noteq> 0 \<or> mood (ratings e) \<noteq> 0)"

definition valid_ratings :: "JournalEntry \<Rightarrow> bool" where
  "valid_ratings e =
     (overall (ratings e) \<in> {0..5} \<and> energy (ratings e) \<in> {0..5} \<and>
      productivity (ratings e) \<in> {0..5} \<and> mood (ratings e) \<in> {0..5})"

subsection \<open>Insights\<close>

text \<open>
  The messages of the insights block, in the order in which it pushes them: great
  spirits (average mood at least 4), self-care (average mood at most 2), excellent task
  completion (rate at least 80), breaking down larger tasks (rate at most 50), strong
  productivity (average productivity at least 4), the journaling streak with the number
  of saved entries (at least 7 of them), and the default message that asks to keep
  journaling.
\<close>

datatype insight =
    GreatSpirits
  | SelfCare
  | ExcellentCompletion
  | BreakDownTasks
  | StrongProductivity
  | Streak nat
  | KeepJournaling

text \<open>\<open>x || 0\<close> on a number: \<open>0\<close> is the only falsy integer.\<close>

definition or0 :: "int \<Rightarrow> int" where
  "or0 x = (if x = 0 then 0 else x)"

text \<open>
  The insights block. \<open>slice(-7)\<close> keeps the last seven entries, all of them when there
  are fewer; \<open>reduce\<close> folds from the left. In \<open>sum + e.ratings.productivity || 0\<close> the
  sum binds tighter than \<open>||\<close>. The local constant \<open>completionRate\<close> is called \<open>rate\<close>.
\<close>

definition insights :: "app_state \<Rightarrow> insight list" where
  "insights s =
     (let recentEntries = drop (length (savedEntries s) - 7) (savedEntries s);
          found =
            (if length recentEntries > 0 then
               (let avgMood = divide_num
                      (of_int (foldl (\<lambda>sum e. sum + or0 (mood (ratings e))) 0 recentEntries))
                      (of_nat (length recentEntries));
                    avgProductivity = divide_num
                      (of_int (foldl (\<lambda>sum e. or0 (sum + productivity (ratings e))) 0
                         recentEntries))
                      (of_nat (length recentEntries));
                    totalTasks = foldl (\<lambda>sum e. sum + length (todos e)) 0 recentEntries;
                    completedTasks =
                      foldl (\<lambda>sum e. sum + length (filter completed (todos e))) 0 recentEntries;
                    rate = (if totalTasks > 0
                            then times_num (divide_num (of_nat completedTasks) (of_nat totalTasks)) 100
                            else 0);
                    streakDays = length (savedEntries s)
                in (if avgMood \<ge> 4 then [GreatSpirits]
                    else if avgMood \<le> 2 then [SelfCare] else []) @
                   (if rate \<ge> 80 then [ExcellentCompletion]
                    else if rate \<le> 50 then [BreakDownTasks] else []) @
                   (if avgProductivity \<ge> 4 then [StrongProductivity] else []) @
                   (if streakDays \<ge> 7 then [Streak streakDays] else []))
             else [])
      in if length found = 0 then [KeepJournaling] else found)"

text \<open>
  In the specification's words: the aggregate completion rate of a window, in percent,
  0 when the window has no task.
\<close>

definition completion_percent :: "JournalEntry list \<Rightarrow> rat" where
  "completion_percent es =
     (let totalTasks = sum_list (map (\<lambda>e. length (todos e)) es);
          completedTasks = sum_list (map (\<lambda>e. length (filter completed (todos e))) es)
      in if totalTasks = 0 then 0 else 100 * of_nat completedTasks / of_nat totalTasks)"

text \<open>
  The import contract in the specification's words: the top-level value is an object with
  a field \<open>entries\<close> whose value is an array.
\<close>

definition has_entries_array :: "jsvalue \<Rightarrow> bool" where
  "has_entries_array v =
     (case v of
        JObject kvs \<Rightarrow> (case map_of kvs ''entries'' of Some (JArray es) \<Rightarrow> True | _ \<Rightarrow> False)
      | _ \<Rightarrow> False)"

section \<open>Sample data\<close>

text \<open>
  Values for the worked examples. \<open>getTime_sample\<close> lists the time values (milliseconds
  since the epoch, UTC midnight) that \<open>new Date(d).getTime()\<close> gives for three dates;
  \<open>document_of\<close> is an interchange document as \<open>exportData\<close> writes it.
\<close>

definition getTime_sample :: "string \<Rightarrow> int option" where
  "getTime_sample =
     map_of [(''2024-01-01'', 1704067200000), (''2024-01-02'', 1704153600000),
             (''2024-01-03'', 1704240000000)]"

definition entry_jan1 :: JournalEntry where
  "entry_jan1 = (initialEntry ''2024-01-01'' ''1/1/2024, 9:00:00 PM'')\<lparr>mainGoal := ''Read''\<rparr>"

definition entry_jan1_other :: JournalEntry where
  "entry_jan1_other = (initialEntry ''2024-01-01'' ''1/1/2024, 11:00:00 PM'')\<lparr>mainGoal := ''Run''\<rparr>"

definition entry_jan2 :: JournalEntry where
  "entry_jan2 = (initialEntry ''2024-01-02'' ''1/2/2024, 9:00:00 PM'')\<lparr>mainGoal := ''Rest''\<rparr>"

definition state_start :: app_state where
  "state_start = \<lparr>entry = initialEntry ''2024-01-03'' ''1/3/2024, 8:00:00 AM'',
                   savedEntries = [], stored = None\<rparr>"

definition state_jan1 :: app_state where
  "state_jan1 = \<lparr>entry = initialEntry ''2024-01-03'' ''1/3/2024, 8:00:00 AM'',
                  savedEntries = [entry_jan1], stored = Some [entry_jan1]\<rparr>"

definition document_of :: "JournalEntry list \<Rightarrow> jsvalue" where
  "document_of es =
     JObject [(''exportDate'', JString ''2024-01-03T08:00:00.000Z''),
              (''totalEntries'', JNumber (int (length es))), (''entries'', JArray es)]"

definition todo_A :: Todo where
  "todo_A = \<lparr>todo_text = ''A'', completed = True, priority = High\<rparr>"

definition state_rated :: app_state where
  "state_rated =
     \<lparr>entry = (initialEntry ''2024-01-03'' ''1/3/2024, 8:00:00 AM'')
                \<lparr>ratings := \<lparr>overall = 5, energy = 0, productivity = 0, mood = 0\<rparr>\<rparr>,
      savedEntries =
        [entry_jan1\<lparr>ratings := \<lparr>overall = 4, energy = 0, productivity = 0, mood = 3\<rparr>\<rparr>,
         entry_jan2],
      stored = None\<rparr>"

definition todo_B :: Todo where
  "todo_B = \<lparr>todo_text = ''B'', completed = False, priority = Low\<rparr>"

definition entry_23_of_40 :: JournalEntry where
  "entry_23_of_40 =
     (initialEntry ''2024-01-01'' ''1/1/2024, 9:00:00 PM'')
       \<lparr>todos := replicate 23 todo_A @ replicate 17 todo_B\<rparr>"

definition state_steady :: app_state where
  "state_steady =
     \<lparr>entry = initialEntry ''2024-01-03'' ''1/3/2024, 8:00:00 AM'',
      savedEntries =
        [entry_jan1\<lparr>ratings := \<lparr>overall = 3, energy = 3, productivity = 3, mood = 3\<rparr>,
                    todos := [todo_A, todo_A, todo_B]\<rparr>],
      stored = None\<rparr>"

definition state_week :: app_state where
  "state_week =
     \<lparr>entry = initialEntry ''2024-01-08'' ''1/8/2024, 8:00:00 AM'',
      savedEntries =
        map (\<lambda>d. (initialEntry d ''9:00:00 PM'')
                    \<lparr>ratings := \<lparr>overall = 5, energy = 4, productivity = 4, mood = 5\<rparr>,
                     todos := [todo_A]\<rparr>)
          [''2024-01-01'', ''2024-01-02'', ''2024-01-03'', ''2024-01-04'', ''2024-01-05'',
           ''2024-01-06'', ''2024-01-07''],
      stored = None\<rparr>"

lemmas sample_defs =
  entry_jan1_def entry_jan1_other_def entry_jan2_def state_start_def state_jan1_def
  document_of_def initialEntry_def getTime_sample_def

lemmas stats_sample_defs =
  state_steady_def state_rated_def todo_A_def todo_B_def entry_jan1_def entry_jan2_def
  initialEntry_def

lemmas import_defs =
  importData_def importTry_def array_sort_def compareDates_def sortCompare_def Let_def

section \<open>Lemmas on the list operations\<close>

lemma findIndex_ge: "findIndex p xs \<ge> - 1"
  by (induction xs) (auto simp: Let_def)

lemma findIndex_neg_iff: "findIndex p xs < 0 \<longleftrightarrow> (\<forall>x\<in>set xs. \<not> p x)"
  by (induction xs) (auto simp: Let_def)

lemma findIndex_hit:
  "0 \<le> findIndex p xs \<Longrightarrow> nat (findIndex p xs) < length xs \<and> p (xs ! nat (findIndex p xs))"
proof (induction xs)
  case Nil
  then show ?case by simp
next
  case (Cons x xs)
  show ?case
  proof (cases "p x")
    case True
    then show ?thesis by simp
  next
    case False
    with Cons.prems have nn: "0 \<le> findIndex p xs"
      by (auto simp: Let_def split: if_splits)
    with False have "findIndex p (x # xs) = findIndex p xs + 1"
      by (simp add: Let_def)
    moreover from nn have "nat (findIndex p xs + 1) = Suc (nat (findIndex p xs))"
      by simp
    ultimately show ?thesis using Cons.IH [OF nn] by simp
  qed
qed

lemma findIndex_first:
  "0 \<le> findIndex p xs \<Longrightarrow> j < nat (findIndex p xs) \<Longrightarrow> \<not> p (xs ! j)"
proof (induction xs arbitrary: j)
  case Nil
  then show ?case by simp
next
  case (Cons x xs)
  show ?case
  proof (cases "p x")
    case True
    with Cons.prems show ?thesis by simp
  next
    case False
    with Cons.prems have nn: "0 \<le> findIndex p xs"
      by (auto simp: Let_def split: if_splits)
    with False have eq: "nat (findIndex p (x # xs)) = Suc (nat (findIndex p xs))"
      by (simp add: Let_def)
    show ?thesis
    proof (cases j)
      case 0
      with False show ?thesis by simp
    next
      case (Suc k)
      with Cons.prems(2) eq have "k < nat (findIndex p xs)" by simp
      from Cons.IH [OF nn this] Suc show ?thesis by simp
    qed
  qed
qed

lemma mset_sortInsert: "mset (sortInsert c x ys) = add_mset x (mset ys)"
  by (induction ys) auto

lemma mset_array_sort: "mset (array_sort c xs) = mset xs"
  unfolding array_sort_def by (induction xs) (auto simp: mset_sortInsert)

lemma sortInsert_insort_key:
  assumes "getTime (date x) \<noteq> None" and "\<forall>y\<in>set ys. getTime (date y) \<noteq> None"
  shows "sortInsert (compareDates getTime) x ys = insort_key (\<lambda>e. the (getTime (date e))) x ys"
  using assms
  by (induction ys) (auto simp: sortCompare_def compareDates_def split: option.splits)

lemma set_sortInsert: "set (sortInsert c x ys) = insert x (set ys)"
  by (induction ys) auto

lemma array_sort_sort_key:
  assumes "\<forall>y\<in>set xs. getTime (date y) \<noteq> None"
  shows "array_sort (compareDates getTime) xs = sort_key (\<lambda>e. the (getTime (date e))) xs"
  using assms unfolding array_sort_def sort_key_def
proof (induction xs)
  case Nil
  then show ?case by simp
next
  case (Cons x xs)
  then have IH: "foldr (sortInsert (compareDates getTime)) xs [] =
      foldr (insort_key (\<lambda>e. the (getTime (date e)))) xs []" by simp
  have "\<forall>y\<in>set (foldr (insort_key (\<lambda>e. the (getTime (date e)))) xs []). getTime (date y) \<noteq> None"
    using Cons.prems by (simp add: sort_key_def [symmetric])
  with Cons.prems show ?case
    by (simp add: IH sortInsert_insort_key)
qed

lemma findIndex_nonneg_iff: "0 \<le> findIndex p xs \<longleftrightarrow> (\<exists>x\<in>set xs. p x)"
  unfolding not_less [symmetric] findIndex_neg_iff by simp

lemma filter_update_unique:
  assumes "i < length xs" and "P (xs ! i)" and "length (filter P xs) = 1" and "P u"
  shows "filter P (xs[i := u]) = [u]"
proof -
  have "filter P xs = filter P (take i xs @ xs ! i # drop (Suc i) xs)"
    by (metis id_take_nth_drop assms(1))
  with assms(2,3)
  have "length (filter P (take i xs)) + length (filter P (drop (Suc i) xs)) = 0"
    by simp
  then have "filter P (take i xs) = []" and "filter P (drop (Suc i) xs) = []"
    by simp_all
  moreover have "xs[i := u] = take i xs @ u # drop (Suc i) xs"
    using assms(1) by (rule upd_conv_take_nth_drop)
  ultimately show ?thesis using assms(4) by simp
qed

lemma distinct_map_filter_le1:
  "distinct (map f xs) \<Longrightarrow> length (filter (\<lambda>x. f x = d) xs) \<le> 1"
proof (induction xs)
  case Nil
  then show ?case by simp
next
  case (Cons x xs)
  show ?case
  proof (cases "f x = d")
    case True
    with Cons.prems have "d \<notin> f ` set xs" by simp
    then have "\<forall>y\<in>set xs. f y \<noteq> d" by (metis imageI)
    then have "filter (\<lambda>x. f x = d) xs = []" by (simp add: filter_empty_conv)
    with True show ?thesis by simp
  next
    case False
    with Cons show ?thesis by simp
  qed
qed

section \<open>Lemmas on the store operations\<close>

lemma saveEntry_savedEntries:
  "savedEntries (fst (saveEntry init now ok s)) =
     (let i = findIndex (\<lambda>e. date e = date (entry s)) (savedEntries s);
          u = (entry s)\<lparr>timestamp := now\<rparr>
      in if 0 \<le> i then (if ok then (savedEntries s)[nat i := u] else savedEntries s)
         else savedEntries s @ [u])"
  by (simp add: saveEntry_def Let_def)

lemma map_date_update:
  assumes "0 \<le> findIndex (\<lambda>e. date e = d) xs" and "date u = d"
  shows "map date (xs[nat (findIndex (\<lambda>e. date e = d) xs) := u]) = map date xs"
proof -
  from findIndex_hit [OF assms(1)]
  have "nat (findIndex (\<lambda>e. date e = d) xs) < length xs"
    and "date (xs ! nat (findIndex (\<lambda>e. date e = d) xs)) = d" by simp_all
  with assms(2) show ?thesis
    by (simp add: map_update list_update_same_conv)
qed

lemma saveEntry_distinct:
  assumes "distinct (map date (savedEntries s))"
  shows "distinct (map date (savedEntries (fst (saveEntry init now ok s))))"
proof (cases "0 \<le> findIndex (\<lambda>e. date e = date (entry s)) (savedEntries s)")
  case True
  then show ?thesis
    using assms map_date_update [OF True, of "(entry s)\<lparr>timestamp := now\<rparr>"]
    by (simp add: saveEntry_savedEntries Let_def)
next
  case False
  then have "\<forall>x\<in>set (savedEntries s). date x \<noteq> date (entry s)"
    using findIndex_neg_iff [of "\<lambda>e. date e = date (entry s)" "savedEntries s"] by simp
  with False assms show ?thesis
    by (auto simp: saveEntry_savedEntries Let_def)
qed

lemma upserts_distinct:
  "distinct (map date (savedEntries s)) \<Longrightarrow>
   distinct (map date (savedEntries (upserts init ops s)))"
proof (induction ops arbitrary: s)
  case Nil
  then show ?case by simp
next
  case (Cons op ops)
  obtain e now ok where op: "op = (e, now, ok)" by (cases op)
  have "distinct (map date (savedEntries (s\<lparr>entry := e\<rparr>)))"
    using Cons.prems by simp
  from saveEntry_distinct [OF this]
  have "distinct (map date (savedEntries (fst (saveEntry init now ok (s\<lparr>entry := e\<rparr>)))))" .
  from Cons.IH [OF this] show ?case by (simp add: op)
qed

lemma importTry_ok:
  assumes "get_entries importedData = Inr (JArray payload)"
  shows "importTry getTime (Inr importedData) saved =
     Inr (array_sort (compareDates getTime)
            (saved @ filter (\<lambda>e. date e \<notin> set (map date saved)) payload),
          length (filter (\<lambda>e. date e \<notin> set (map date saved)) payload),
          length payload - length (filter (\<lambda>e. date e \<notin> set (map date saved)) payload))"
  using assms by (simp add: importTry_def Let_def)

lemma importData_ok:
  assumes "get_entries importedData = Inr (JArray payload)"
  shows "importData getTime (Some (Inr importedData)) s =
     (s\<lparr>savedEntries := array_sort (compareDates getTime)
            (savedEntries s @ filter (\<lambda>e. date e \<notin> set (map date (savedEntries s))) payload),
        stored := Some (array_sort (compareDates getTime)
            (savedEntries s @ filter (\<lambda>e. date e \<notin> set (map date (savedEntries s))) payload))\<rparr>,
      Imported (length (filter (\<lambda>e. date e \<notin> set (map date (savedEntries s))) payload))
        (length payload - length (filter (\<lambda>e. date e \<notin> set (map date (savedEntries s))) payload)))"
  by (simp add: importData_def importTry_ok [OF assms])

section \<open>Lemmas on binary64 arithmetic\<close>

lemma roundTiesToEven_error: "\<bar>of_int (roundTiesToEven y) - y\<bar> \<le> 1 / 2"
proof -
  have "of_int \<lfloor>y\<rfloor> \<le> y" and "y < of_int \<lfloor>y\<rfloor> + 1" by linarith+
  then show ?thesis
    by (auto simp: roundTiesToEven_def Let_def abs_le_iff)
qed

lemma exponent_lower:
  assumes "0 < x"
  shows "power_int 2 (exponent x) \<le> x"
proof -
  obtain p q where pq: "quotient_of x = (p, q)" by (cases "quotient_of x")
  then have q: "0 < q" and x: "x = of_int p / of_int q"
    by (simp_all add: quotient_of_denom_pos quotient_of_div)
  with assms have p: "0 < p"
    by (simp add: zero_less_divide_iff)
  define k where "k = bitlen p - bitlen q"
  show ?thesis
  proof (cases "power_int 2 k \<le> x")
    case True
    then show ?thesis by (simp add: exponent_def pq k_def Let_def)
  next
    case False
    then have e: "exponent x = k - 1" by (simp add: exponent_def pq k_def Let_def)
    from bitlen_bounds [OF p] have lp: "2 ^ nat (bitlen p - 1) \<le> p" by simp
    from bitlen_bounds [OF q] have uq: "q < 2 ^ nat (bitlen q)" by simp
    have bp: "1 \<le> bitlen p" using p by (simp add: bitlen_alt_def [of p] bitlen_nonneg)
    have bq: "0 \<le> bitlen q" by (rule bitlen_nonneg)
    from lp have "(of_int (2 ^ nat (bitlen p - 1)) :: rat) \<le> of_int p"
      by (simp only: of_int_le_iff)
    then have lp': "power_int 2 (bitlen p - 1) \<le> (of_int p :: rat)"
      using bp by (simp add: power_int_def)
    from uq have "(of_int q :: rat) < of_int (2 ^ nat (bitlen q))"
      by (simp only: of_int_less_iff)
    then have uq': "(of_int q :: rat) \<le> power_int 2 (bitlen q)"
      using bq by (simp add: power_int_def)
    have "power_int 2 (k - 1) = power_int (2::rat) (bitlen p - 1) / power_int 2 (bitlen q)"
      by (simp add: k_def power_int_diff [symmetric] algebra_simps)
    also have "\<dots> \<le> of_int p / of_int q"
      using lp' uq' q p by (intro frac_le) simp_all
    finally have "power_int 2 (k - 1) \<le> x" by (simp only: x)
    then show ?thesis by (simp only: e)
  qed
qed

lemma exponent_upper:
  assumes "0 < x"
  shows "x < power_int 2 (exponent x + 1)"
proof -
  obtain p q where pq: "quotient_of x = (p, q)" by (cases "quotient_of x")
  then have q: "0 < q" and x: "x = of_int p / of_int q"
    by (simp_all add: quotient_of_denom_pos quotient_of_div)
  with assms have p: "0 < p"
    by (simp add: zero_less_divide_iff)
  define k where "k = bitlen p - bitlen q"
  show ?thesis
  proof (cases "power_int 2 k \<le> x")
    case True
    then have e: "exponent x = k" by (simp add: exponent_def pq k_def Let_def)
    from bitlen_bounds [OF p] have up: "p < 2 ^ nat (bitlen p)" by simp
    from bitlen_bounds [OF q] have lq: "2 ^ nat (bitlen q - 1) \<le> q" by simp
    have bq: "1 \<le> bitlen q" using q by (simp add: bitlen_alt_def [of q] bitlen_nonneg)
    have bp: "0 \<le> bitlen p" by (rule bitlen_nonneg)
    from up have "(of_int p :: rat) < of_int (2 ^ nat (bitlen p))"
      by (simp only: of_int_less_iff)
    then have up': "(of_int p :: rat) < power_int 2 (bitlen p)"
      using bp by (simp add: power_int_def)
    from lq have "(of_int (2 ^ nat (bitlen q - 1)) :: rat) \<le> of_int q"
      by (simp only: of_int_le_iff)
    then have lq': "power_int 2 (bitlen q - 1) \<le> (of_int q :: rat)"
      using bq by (simp add: power_int_def)
    have "of_int p / of_int q < power_int (2::rat) (bitlen p) / power_int 2 (bitlen q - 1)"
      using up' lq' q p by (intro frac_less) simp_all
    also have "\<dots> = power_int 2 (k + 1)"
      by (simp add: k_def power_int_diff [symmetric] algebra_simps)
    finally have "x < power_int 2 (k + 1)" by (simp only: x)
    then show ?thesis by (simp only: e)
  next
    case False
    then have e: "exponent x = k - 1" by (simp add: exponent_def pq k_def Let_def)
    from False show ?thesis by (simp add: e)
  qed
qed

text \<open>The binary64 value of one tenth, as a check of the rounding.\<close>

lemma binary64_tenth: "binary64 (1 / 10) = 3602879701896397 / 36028797018963968"
  by code_simp

lemma binary64_error:
  assumes "0 \<le> x"
  shows "\<bar>binary64 x - x\<bar> \<le> x / 2 ^ 53"
proof (cases "x = 0")
  case True
  then show ?thesis by (simp add: binary64_def)
next
  case False
  with assms have pos: "0 < x" by simp
  define u :: rat where "u = power_int 2 (exponent x - 52)"
  have u: "0 < u" by (simp add: u_def)
  have b: "binary64 x = of_int (roundTiesToEven (x / u)) * u"
    using pos by (simp add: binary64_def u_def Let_def)
  have "binary64 x - x = (of_int (roundTiesToEven (x / u)) - x / u) * u"
    using u by (simp add: b algebra_simps)
  then have "\<bar>binary64 x - x\<bar> = \<bar>of_int (roundTiesToEven (x / u)) - x / u\<bar> * u"
    using u by (simp add: abs_mult)
  also have "\<dots> \<le> 1 / 2 * u"
    using roundTiesToEven_error [of "x / u"] u by (intro mult_right_mono) simp_all
  also have "1 / 2 * u = power_int 2 (exponent x) / 2 ^ 53"
    by (simp add: u_def power_int_diff)
  also have "\<dots> \<le> x / 2 ^ 53"
    using exponent_lower [OF pos] by (simp add: divide_right_mono)
  finally show ?thesis .
qed

lemma binary64_bounds:
  assumes "0 \<le> x"
  shows "x - x / 2 ^ 53 \<le> binary64 x" and "binary64 x \<le> x + x / 2 ^ 53"
  using binary64_error [OF assms] unfolding abs_le_iff by linarith+

lemma binary64_nonneg: "0 \<le> x \<Longrightarrow> 0 \<le> binary64 x"
  using binary64_bounds(1) [of x] by simp

lemma percent_error:
  assumes "0 \<le> a / b" and "a / b \<le> 1"
  shows "\<bar>times_num (divide_num a b) 100 - 100 * (a / b)\<bar> \<le> 201 / 2 ^ 53"
proof -
  define q where "q = a / b"
  define y where "y = binary64 q"
  define z where "z = binary64 (y * 100)"
  have q: "0 \<le> q" "q \<le> 1" using assms by (simp_all add: q_def)
  have y: "q - q / 2 ^ 53 \<le> y" "y \<le> q + q / 2 ^ 53"
    unfolding y_def using q(1) by (rule binary64_bounds)+
  have y0: "0 \<le> y" unfolding y_def using q(1) by (rule binary64_nonneg)
  then have "0 \<le> y * 100" by simp
  then have z: "y * 100 - y * 100 / 2 ^ 53 \<le> z" "z \<le> y * 100 + y * 100 / 2 ^ 53"
    unfolding z_def by (rule binary64_bounds)+
  from q y z have "z - 100 * q \<le> 201 / 2 ^ 53" and "- (201 / 2 ^ 53) \<le> z - 100 * q"
    by simp_all
  then have "\<bar>z - 100 * q\<bar> \<le> 201 / 2 ^ 53"
    by linarith
  then show ?thesis
    by (simp add: q_def z_def y_def times_num_def divide_num_def)
qed

lemma floor_half_nearest:
  fixes z :: rat and a t :: int
  assumes "0 < t" and "\<bar>z - of_int a / of_int t\<bar> < 1 / (2 * of_int t)"
  shows "\<bar>of_int \<lfloor>z + 1 / 2\<rfloor> - (of_int a / of_int t :: rat)\<bar> \<le> 1 / 2"
proof -
  define r where "r = \<lfloor>z + 1 / 2\<rfloor>"
  define w :: rat where "w = of_int a / of_int t"
  define g :: rat where "g = 1 / (2 * of_int t)"
  have r1: "of_int r \<le> z + 1 / 2" and r2: "z + 1 / 2 < of_int r + 1"
    unfolding r_def by linarith+
  have t: "(0::rat) < of_int t" using assms(1) by simp
  from assms(2) have zw: "z - w < g" "w - z < g"
    by (simp_all add: w_def g_def abs_less_iff)
  have id1: "of_int r - w - 1 / 2 = of_int (2 * r * t - 2 * a - t) * g"
    using t by (simp add: w_def g_def field_simps)
  have id2: "w - of_int r - 1 / 2 = of_int (2 * a - 2 * r * t - t) * g"
    using t by (simp add: w_def g_def field_simps)
  have g: "0 < g" using t by (simp add: g_def)
  have int_step: "of_int m * g \<le> 0" if "of_int m * g < g" for m :: int
  proof -
    from that g have "(of_int m :: rat) < 1" by simp
    then have "m \<le> 0" by simp
    then have "(of_int m :: rat) \<le> 0" by simp
    with g show ?thesis by (simp add: mult_le_0_iff)
  qed
  from r1 zw(1) have "of_int (2 * r * t - 2 * a - t) * g < g"
    unfolding id1 [symmetric] by linarith
  then have "of_int r - w - 1 / 2 \<le> 0"
    unfolding id1 by (rule int_step)
  moreover from r2 zw(2) have "of_int (2 * a - 2 * r * t - t) * g < g"
    unfolding id2 [symmetric] by linarith
  then have "w - of_int r - 1 / 2 \<le> 0"
    unfolding id2 by (rule int_step)
  ultimately show ?thesis
    unfolding r_def [symmetric] w_def [symmetric] by linarith
qed

lemma percent_nearest:
  fixes c t :: nat
  assumes "c \<le> t" and "0 < t" and "t < 2 ^ 32"
  shows "\<bar>of_int (Math_round (times_num (divide_num (of_nat c) (of_nat t)) 100)) -
           100 * of_nat c / (of_nat t :: rat)\<bar> \<le> 1 / 2"
proof -
  define z where "z = times_num (divide_num (of_nat c) (of_nat t)) 100"
  have q: "0 \<le> (of_nat c :: rat) / of_nat t" "(of_nat c :: rat) / of_nat t \<le> 1"
    using assms(1,2) by simp_all
  from percent_error [OF q]
  have e: "\<bar>z - 100 * (of_nat c / of_nat t)\<bar> \<le> 201 / 2 ^ 53"
    by (simp add: z_def)
  have "(of_nat t :: rat) < 2 ^ 32"
    using assms(3) by (metis of_nat_less_iff of_nat_numeral of_nat_power)
  then have "(1 :: rat) / 2 ^ 33 < 1 / (2 * of_nat t)"
    using assms(2) by (simp add: field_simps)
  then have "(201 :: rat) / 2 ^ 53 < 1 / (2 * of_nat t)"
    by simp
  with e have "\<bar>z - of_int (100 * int c) / of_int (int t)\<bar> < 1 / (2 * of_int (int t))"
    by simp
  from floor_half_nearest [OF _ this] assms(2)
  show ?thesis by (simp add: Math_round_def z_def)
qed

lemma percent_range:
  fixes c t :: nat
  assumes "c \<le> t" and "0 < t" and "t < 2 ^ 32"
  shows "0 \<le> Math_round (times_num (divide_num (of_nat c) (of_nat t)) 100)"
    and "Math_round (times_num (divide_num (of_nat c) (of_nat t)) 100) \<le> 100"
proof -
  define r where "r = Math_round (times_num (divide_num (of_nat c) (of_nat t)) 100)"
  have "0 \<le> (of_nat c :: rat) / of_nat t" "(of_nat c :: rat) / of_nat t \<le> 1"
    using assms(1,2) by simp_all
  then have q: "0 \<le> 100 * (of_nat c :: rat) / of_nat t" "100 * (of_nat c :: rat) / of_nat t \<le> 100"
    by simp_all
  from percent_nearest [OF assms] have "\<bar>of_int r - 100 * of_nat c / (of_nat t :: rat)\<bar> \<le> 1 / 2"
    by (simp add: r_def)
  then have "of_int r - 100 * of_nat c / (of_nat t :: rat) \<le> 1 / 2"
    and "- (1 / 2) \<le> of_int r - 100 * of_nat c / (of_nat t :: rat)"
    unfolding abs_le_iff by linarith+
  with q have "(of_int (- 1) :: rat) < of_int r" and "(of_int r :: rat) < of_int 101"
    by linarith+
  then have "- 1 < r" and "r < 101"
    by (simp_all only: of_int_less_iff)
  then have "0 \<le> r" and "r \<le> 100"
    by simp_all
  then show "0 \<le> Math_round (times_num (divide_num (of_nat c) (of_nat t)) 100)"
    and "Math_round (times_num (divide_num (of_nat c) (of_nat t)) 100) \<le> 100"
    by (simp_all add: r_def)
qed

lemma percent_all: "Math_round (times_num (divide_num 1 1) 100) = 100"
  by code_simp

lemma percent_23_of_40: "Math_round (times_num (divide_num 23 40) 100) = 57"
  by code_simp

lemma nearest_is_round:
  fixes r :: int and w :: rat
  assumes "\<bar>of_int r - w\<bar> \<le> 1 / 2"
  shows "r = Math_round w \<or> r = Math_round w - 1"
    and "w + 1 / 2 \<notin> \<int> \<Longrightarrow> r = Math_round w"
proof -
  define m where "m = \<lfloor>w + 1 / 2\<rfloor>"
  have m1: "of_int m \<le> w + 1 / 2" and m2: "w + 1 / 2 < of_int m + 1"
    unfolding m_def by linarith+
  from assms have r1: "of_int r \<le> w + 1 / 2" and r2: "w - 1 / 2 \<le> of_int r"
    unfolding abs_le_iff by linarith+
  from r1 have le: "r \<le> m" unfolding m_def by (simp add: le_floor_iff)
  from r2 m1 have "(of_int (m - 2) :: rat) < of_int r" by simp
  then have ge: "m - 1 \<le> r" by (simp only: of_int_less_iff)
  from le ge show "r = Math_round w \<or> r = Math_round w - 1"
    unfolding Math_round_def m_def [symmetric] by linarith
  show "r = Math_round w" if "w + 1 / 2 \<notin> \<int>"
  proof -
    have "of_int m \<noteq> w + 1 / 2"
    proof
      assume "of_int m = w + 1 / 2"
      then have "w + 1 / 2 \<in> \<int>" by (metis Ints_of_int)
      with that show False by simp
    qed
    with m1 have "of_int m < w + 1 / 2" by simp
    with r2 have "(of_int (m - 1) :: rat) < of_int r" by simp
    then have "m \<le> r" by (simp only: of_int_less_iff)
    with le show ?thesis unfolding Math_round_def m_def [symmetric] by simp
  qed
qed

lemma foldl_plus_sum_list:
  "foldl (\<lambda>sum e. sum + f e) a xs = a + sum_list (map f xs)" for a :: int
  by (induction xs arbitrary: a) simp_all

lemma sum_list_bounds:
  fixes f :: "'a \<Rightarrow> int"
  assumes "\<forall>e\<in>set xs. 0 \<le> f e \<and> f e \<le> 5"
  shows "0 \<le> sum_list (map f xs) \<and> sum_list (map f xs) \<le> 5 * int (length xs)"
  using assms by (induction xs) auto

lemma average_nearest:
  fixes f :: "'a \<Rightarrow> int"
  assumes "\<forall>e\<in>set xs. 0 \<le> f e \<and> f e \<le> 5" and "xs \<noteq> []" and "length xs < 2 ^ 32"
  shows "\<bar>of_int (toFixed1 (divide_num (of_int (sum_list (map f xs))) (of_nat (length xs)))) / 10 -
           of_int (sum_list (map f xs)) / (of_nat (length xs) :: rat)\<bar> \<le> 1 / 20"
proof -
  define a where "a = sum_list (map f xs)"
  define k where "k = length xs"
  define q :: rat where "q = of_int a / of_nat k"
  define x where "x = binary64 q"
  have k: "0 < k" using assms(2) by (simp add: k_def)
  from sum_list_bounds [OF assms(1)] have a: "0 \<le> a" "a \<le> 5 * int k"
    by (simp_all add: a_def k_def)
  have q0: "0 \<le> q" using a(1) by (simp add: q_def)
  from a(2) have "(of_int a :: rat) \<le> of_int (5 * int k)" by (simp only: of_int_le_iff)
  then have q5: "q \<le> 5" using k by (simp add: q_def field_simps)
  from binary64_bounds [OF q0] have x: "q - q / 2 ^ 53 \<le> x" "x \<le> q + q / 2 ^ 53"
    by (simp_all add: x_def)
  have x0: "0 \<le> x" unfolding x_def using q0 by (rule binary64_nonneg)
  from x q0 q5 have "x * 10 - 10 * q \<le> 50 / 2 ^ 53" "- (50 / 2 ^ 53) \<le> x * 10 - 10 * q"
    by simp_all
  then have e: "\<bar>x * 10 - 10 * q\<bar> \<le> 50 / 2 ^ 53" by linarith
  have "(of_nat k :: rat) < 2 ^ 32"
    using assms(3) unfolding k_def by (metis of_nat_less_iff of_nat_numeral of_nat_power)
  then have "(1 :: rat) / 2 ^ 33 < 1 / (2 * of_nat k)"
    using k by (simp add: field_simps)
  then have "(50 :: rat) / 2 ^ 53 < 1 / (2 * of_nat k)" by simp
  with e have "\<bar>x * 10 - of_int (10 * a) / of_int (int k)\<bar> < 1 / (2 * of_int (int k))"
    by (simp add: q_def)
  from floor_half_nearest [OF _ this] k
  have "\<bar>of_int \<lfloor>x * 10 + 1 / 2\<rfloor> - (of_int (10 * a) / of_int (int k) :: rat)\<bar> \<le> 1 / 2"
    by simp
  moreover have "(of_int (10 * a) / of_int (int k) :: rat) = 10 * q"
    by (simp add: q_def)
  ultimately have "\<bar>of_int \<lfloor>x * 10 + 1 / 2\<rfloor> - 10 * q\<bar> \<le> 1 / 2"
    by (simp only:)
  then have "\<bar>of_int \<lfloor>x * 10 + 1 / 2\<rfloor> / 10 - q\<bar> \<le> 1 / 20"
    unfolding abs_le_iff by linarith
  moreover have "toFixed1 x = \<lfloor>x * 10 + 1 / 2\<rfloor>"
    using x0 by (simp add: toFixed1_def)
  ultimately show ?thesis
    by (simp add: x_def q_def a_def k_def divide_num_def)
qed

lemma ratingAverages_state_rated:
  "ratingAverages state_rated =
     Some \<lparr>avg_overall = 9 / 2, avg_energy = 0, avg_productivity = 0, avg_mood = 3 / 2\<rparr>"
  by code_simp

lemma or0_id: "or0 x = x"
  by (simp add: or0_def)

lemma foldl_plus_sum_list_nat:
  "foldl (\<lambda>sum e. sum + f e) a xs = a + sum_list (map f xs)" for a :: nat
  by (induction xs arbitrary: a) simp_all

lemma same_side:
  fixes z w c :: rat
  assumes "\<bar>z - w\<bar> < \<bar>w - c\<bar>"
  shows "(c \<le> z) = (c \<le> w)" and "(z \<le> c) = (w \<le> c)"
  using assms by linarith+

lemma binary64_2: "binary64 2 = 2"
  by code_simp

lemma binary64_4: "binary64 4 = 4"
  by code_simp

lemma percent_four_fifths: "times_num (divide_num 4 5) 100 = 80"
  by code_simp

lemma percent_half: "times_num (divide_num 1 2) 100 = 50"
  by code_simp

lemma average_threshold:
  fixes a c :: int and k :: nat
  assumes "0 \<le> a" and "a \<le> 5 * int k" and "0 < k" and "k < 2 ^ 32"
    and "binary64 (of_int c) = of_int c"
  shows "(of_int c \<le> divide_num (of_int a) (of_nat k)) = (of_int c \<le> (of_int a / of_nat k :: rat))"
    and "(divide_num (of_int a) (of_nat k) \<le> of_int c) = ((of_int a / of_nat k :: rat) \<le> of_int c)"
proof -
  define q :: rat where "q = of_int a / of_nat k"
  have k: "(0::rat) < of_nat k" using assms(3) by simp
  have q0: "0 \<le> q" using assms(1) by (simp add: q_def)
  from assms(2) have "(of_int a :: rat) \<le> of_int (5 * int k)" by (simp only: of_int_le_iff)
  then have q5: "q \<le> 5" using k by (simp add: q_def field_simps)
  have "(of_int c \<le> binary64 q) = (of_int c \<le> q) \<and> (binary64 q \<le> of_int c) = (q \<le> of_int c)"
  proof (cases "a = c * int k")
    case True
    then have "q = of_int c" using k by (simp add: q_def)
    then show ?thesis by (simp add: assms(5))
  next
    case False
    then have "1 \<le> \<bar>a - c * int k\<bar>" by simp
    then have "(of_int 1 :: rat) \<le> of_int \<bar>a - c * int k\<bar>" by (simp only: of_int_le_iff)
    then have "(1 :: rat) \<le> \<bar>of_int a - of_int c * of_nat k\<bar>" by simp
    moreover have "q - of_int c = (of_int a - of_int c * of_nat k) / of_nat k"
      using k by (simp add: q_def field_simps)
    ultimately have gap: "1 / of_nat k \<le> \<bar>q - of_int c\<bar>"
      using k by (simp add: abs_divide divide_right_mono del: of_int_diff)
    have "(of_nat k :: rat) < 2 ^ 32"
      using assms(4) by (metis of_nat_less_iff of_nat_numeral of_nat_power)
    then have "(1 :: rat) / 2 ^ 32 < 1 / of_nat k"
      using k by (simp add: field_simps)
    moreover from q5 q0 have "q / 2 ^ 53 < 1 / 2 ^ 32" by simp
    ultimately have "q / 2 ^ 53 < \<bar>q - of_int c\<bar>" using gap by linarith
    with binary64_error [OF q0] have "\<bar>binary64 q - q\<bar> < \<bar>q - of_int c\<bar>" by linarith
    from same_side [OF this] show ?thesis by simp
  qed
  then show "(of_int c \<le> divide_num (of_int a) (of_nat k)) = (of_int c \<le> (of_int a / of_nat k :: rat))"
    and "(divide_num (of_int a) (of_nat k) \<le> of_int c) = ((of_int a / of_nat k :: rat) \<le> of_int c)"
    by (simp_all add: divide_num_def q_def)
qed

lemma rate_threshold:
  fixes C T :: nat and c :: int
  assumes "C \<le> T" and "0 < T" and "T < 2 ^ 35"
    and exact: "100 * (of_nat C :: rat) / of_nat T = of_int c \<Longrightarrow>
      times_num (divide_num (of_nat C) (of_nat T)) 100 = of_int c"
  shows "(of_int c \<le> times_num (divide_num (of_nat C) (of_nat T)) 100) =
           (of_int c \<le> 100 * (of_nat C :: rat) / of_nat T)"
    and "(times_num (divide_num (of_nat C) (of_nat T)) 100 \<le> of_int c) =
           (100 * (of_nat C :: rat) / of_nat T \<le> of_int c)"
proof -
  define w :: rat where "w = 100 * of_nat C / of_nat T"
  define z where "z = times_num (divide_num (of_nat C) (of_nat T)) 100"
  have T: "(0::rat) < of_nat T" using assms(2) by simp
  have q: "0 \<le> (of_nat C :: rat) / of_nat T" "(of_nat C :: rat) / of_nat T \<le> 1"
    using assms(1,2) by simp_all
  from percent_error [OF q] have e: "\<bar>z - w\<bar> \<le> 201 / 2 ^ 53"
    by (simp add: z_def w_def)
  have "(of_int c \<le> z) = (of_int c \<le> w) \<and> (z \<le> of_int c) = (w \<le> of_int c)"
  proof (cases "w = of_int c")
    case True
    then have "z = of_int c" unfolding z_def w_def by (rule exact)
    with True show ?thesis by simp
  next
    case False
    have wc: "w - of_int c = of_int (100 * int C - c * int T) / of_nat T"
      using T by (simp add: w_def field_simps)
    have "100 * int C - c * int T \<noteq> 0"
    proof
      assume "100 * int C - c * int T = 0"
      then have "w - of_int c = 0" unfolding wc by (simp only: of_int_0 div_0)
      with False show False by simp
    qed
    then have "1 \<le> \<bar>100 * int C - c * int T\<bar>" by simp
    then have "(of_int 1 :: rat) \<le> of_int \<bar>100 * int C - c * int T\<bar>"
      by (simp only: of_int_le_iff)
    then have "(1 :: rat) \<le> \<bar>of_int (100 * int C - c * int T)\<bar>" by simp
    then have gap: "1 / of_nat T \<le> \<bar>w - of_int c\<bar>"
      unfolding wc using T by (simp add: abs_divide divide_right_mono del: of_int_diff)
    have "(of_nat T :: rat) < 2 ^ 35"
      using assms(3) by (metis of_nat_less_iff of_nat_numeral of_nat_power)
    then have "(1 :: rat) / 2 ^ 35 < 1 / of_nat T"
      using T by (simp add: field_simps)
    moreover have "(201 :: rat) / 2 ^ 53 < 1 / 2 ^ 35" by simp
    ultimately have "\<bar>z - w\<bar> < \<bar>w - of_int c\<bar>" using gap e by linarith
    from same_side [OF this] show ?thesis by simp
  qed
  then show "(of_int c \<le> times_num (divide_num (of_nat C) (of_nat T)) 100) =
           (of_int c \<le> 100 * (of_nat C :: rat) / of_nat T)"
    and "(times_num (divide_num (of_nat C) (of_nat T)) 100 \<le> of_int c) =
           (100 * (of_nat C :: rat) / of_nat T \<le> of_int c)"
    by (simp_all add: z_def w_def)
qed

lemma rate_threshold_80:
  fixes C T :: nat
  assumes "C \<le> T" and "0 < T" and "T < 2 ^ 35"
  shows "(80 \<le> times_num (divide_num (of_nat C) (of_nat T)) 100) =
           (80 \<le> 100 * (of_nat C :: rat) / of_nat T)"
proof -
  have "times_num (divide_num (of_nat C) (of_nat T)) 100 = of_int 80"
    if "100 * (of_nat C :: rat) / of_nat T = of_int 80"
  proof -
    from that have "100 * ((of_nat C :: rat) / of_nat T) = 80" by simp
    then have "(of_nat C :: rat) / of_nat T = 4 / 5" by linarith
    then have "divide_num (of_nat C) (of_nat T) = divide_num 4 5"
      by (simp only: divide_num_def)
    then show ?thesis by (simp add: percent_four_fifths)
  qed
  from rate_threshold(1) [OF assms this] show ?thesis by simp
qed

lemma rate_threshold_50:
  fixes C T :: nat
  assumes "C \<le> T" and "0 < T" and "T < 2 ^ 35"
  shows "(times_num (divide_num (of_nat C) (of_nat T)) 100 \<le> 50) =
           (100 * (of_nat C :: rat) / of_nat T \<le> 50)"
proof -
  have "times_num (divide_num (of_nat C) (of_nat T)) 100 = of_int 50"
    if "100 * (of_nat C :: rat) / of_nat T = of_int 50"
  proof -
    from that have "100 * ((of_nat C :: rat) / of_nat T) = 50" by simp
    then have "(of_nat C :: rat) / of_nat T = 1 / 2" by linarith
    then have "divide_num (of_nat C) (of_nat T) = divide_num 1 2"
      by (simp only: divide_num_def)
    then show ?thesis by (simp add: percent_half)
  qed
  from rate_threshold(2) [OF assms this] show ?thesis by simp
qed

lemma sum_list_le_length_times:
  fixes g :: "'a \<Rightarrow> nat"
  assumes "\<forall>e\<in>set xs. g e \<le> B"
  shows "sum_list (map g xs) \<le> length xs * B"
  using assms by (induction xs) auto

lemma insights_unfold:
  assumes "savedEntries s \<noteq> []"
  shows "insights s =
     (let recentEntries = drop (length (savedEntries s) - 7) (savedEntries s);
          avgMood = divide_num (of_int (sum_list (map (\<lambda>e. mood (ratings e)) recentEntries)))
                      (of_nat (length recentEntries));
          avgProductivity =
            divide_num (of_int (sum_list (map (\<lambda>e. productivity (ratings e)) recentEntries)))
              (of_nat (length recentEntries));
          totalTasks = sum_list (map (\<lambda>e. length (todos e)) recentEntries);
          completedTasks = sum_list (map (\<lambda>e. length (filter completed (todos e))) recentEntries);
          rate = (if totalTasks > 0
                  then times_num (divide_num (of_nat completedTasks) (of_nat totalTasks)) 100
                  else 0);
          found = (if avgMood \<ge> 4 then [GreatSpirits]
                   else if avgMood \<le> 2 then [SelfCare] else []) @
                  (if rate \<ge> 80 then [ExcellentCompletion]
                   else if rate \<le> 50 then [BreakDownTasks] else []) @
                  (if avgProductivity \<ge> 4 then [StrongProductivity] else []) @
                  (if length (savedEntries s) \<ge> 7 then [Streak (length (savedEntries s))] else [])
      in if found = [] then [KeepJournaling] else found)"
proof -
  have "drop (length (savedEntries s) - 7) (savedEntries s) \<noteq> []"
    using assms by (cases "savedEntries s") simp_all
  then have "0 < length (drop (length (savedEntries s) - 7) (savedEntries s))"
    by simp
  then show ?thesis
    unfolding insights_def Let_def or0_id
    by (simp only: if_True foldl_plus_sum_list foldl_plus_sum_list_nat add_0 length_0_conv)
qed

lemma insights_state_steady: "insights state_steady = [KeepJournaling]"
  by code_simp

lemma insights_state_rated: "insights state_rated = [SelfCare, BreakDownTasks]"
  by code_simp

lemma insights_state_week:
  "insights state_week = [GreatSpirits, ExcellentCompletion, StrongProductivity, Streak 7]"
  by code_simp

section \<open>Properties of the entry store\<close>

text \<open>
  C1. An import that passes the format check keeps every saved entry and adds exactly the
  payload entries whose date is not yet saved: the merged array is, as a multiset, the
  saved entries plus those new entries, so for a date that is already saved the entries
  of that date are the ones saved before. When the dates of the merged entries are valid
  dates (their time value is not \<open>NaN\<close>), the merged array is sorted by ascending time
  value. The merged array is what is written to storage, and the message reports the
  number of new entries and the payload size minus that number.
\<close>

theorem importData_merges_new_dates:
  assumes "get_entries importedData = Inr (JArray payload)"
  shows "let saved = savedEntries s;
             new = filter (\<lambda>e. date e \<notin> date ` set saved) payload;
             r = importData getTime (Some (Inr importedData)) s;
             merged = savedEntries (fst r)
         in mset merged = mset saved + mset new \<and>
            (\<forall>D \<in> date ` set saved.
               filter_mset (\<lambda>e. date e = D) (mset merged) =
               filter_mset (\<lambda>e. date e = D) (mset saved)) \<and>
            (\<forall>e \<in> set payload. date e \<notin> date ` set saved \<longrightarrow> e \<in> set merged) \<and>
            ((\<forall>e \<in> set saved \<union> set new. getTime (date e) \<noteq> None) \<longrightarrow>
               sorted (map (\<lambda>e. the (getTime (date e))) merged)) \<and>
            stored (fst r) = Some merged \<and> entry (fst r) = entry s \<and>
            snd r = Imported (length new) (length payload - length new)"
proof -
  define saved where "saved = savedEntries s"
  define new where "new = filter (\<lambda>e. date e \<notin> date ` set saved) payload"
  define merged where "merged = array_sort (compareDates getTime) (saved @ new)"
  have r: "importData getTime (Some (Inr importedData)) s =
      (s\<lparr>savedEntries := merged, stored := Some merged\<rparr>,
       Imported (length new) (length payload - length new))"
    by (simp add: importData_ok [OF assms] merged_def new_def saved_def)
  have m: "mset merged = mset saved + mset new"
    by (simp add: merged_def mset_array_sort)
  have d: "\<forall>D \<in> date ` set saved.
      filter_mset (\<lambda>e. date e = D) (mset merged) = filter_mset (\<lambda>e. date e = D) (mset saved)"
  proof
    fix D assume "D \<in> date ` set saved"
    then have "filter (\<lambda>e. date e = D) new = []"
      by (auto simp: new_def filter_empty_conv)
    then have "filter_mset (\<lambda>e. date e = D) (mset new) = {#}"
      by (metis mset_filter mset.simps(1))
    then show "filter_mset (\<lambda>e. date e = D) (mset merged) =
        filter_mset (\<lambda>e. date e = D) (mset saved)"
      by (simp add: m)
  qed
  have a: "\<forall>e \<in> set payload. date e \<notin> date ` set saved \<longrightarrow> e \<in> set merged"
  proof (intro ballI impI)
    fix e assume "e \<in> set payload" and "date e \<notin> date ` set saved"
    then have "e \<in> set new" by (simp add: new_def)
    then have "e \<in># mset merged" by (simp add: m)
    then show "e \<in> set merged" by simp
  qed
  have srt: "(\<forall>e \<in> set saved \<union> set new. getTime (date e) \<noteq> None) \<longrightarrow>
      sorted (map (\<lambda>e. the (getTime (date e))) merged)"
  proof
    assume "\<forall>e \<in> set saved \<union> set new. getTime (date e) \<noteq> None"
    then have "\<forall>e \<in> set (saved @ new). getTime (date e) \<noteq> None" by simp
    from array_sort_sort_key [OF this]
    show "sorted (map (\<lambda>e. the (getTime (date e))) merged)"
      by (simp add: merged_def)
  qed
  from m d a srt show ?thesis
    unfolding Let_def saved_def [symmetric] new_def [symmetric] r
    by simp
qed

theorem importData_merges_new_dates_witness:
  "get_entries (document_of [entry_jan1_other, entry_jan2]) =
     Inr (JArray [entry_jan1_other, entry_jan2]) \<and>
   importData getTime_sample (Some (Inr (document_of [entry_jan1_other, entry_jan2]))) state_jan1 =
     (state_jan1\<lparr>savedEntries := [entry_jan1, entry_jan2],
                 stored := Some [entry_jan1, entry_jan2]\<rparr>, Imported 1 1) \<and>
   sorted (map (\<lambda>e. the (getTime_sample (date e)))
     (savedEntries (fst (importData getTime_sample
        (Some (Inr (document_of [entry_jan1_other, entry_jan2]))) state_jan1))))"
  using importData_merges_new_dates [of "document_of [entry_jan1_other, entry_jan2]"
      "[entry_jan1_other, entry_jan2]" state_jan1 getTime_sample]
  by (simp add: sample_defs import_defs)

text \<open>
  C2. Starting from saved entries with pairwise different dates, any sequence of saves
  (confirmed or declined) leaves the dates pairwise different. A confirmed save whose date
  is already saved overwrites the first entry of that date at its index; a save with a
  new date appends the entry.
\<close>

theorem upserts_no_duplicate_dates:
  assumes "distinct (map date (savedEntries s))"
  shows "distinct (map date (savedEntries (upserts init ops s))) \<and>
         (date e \<in> date ` set (savedEntries s) \<longrightarrow>
            savedEntries (fst (saveEntry init now True (s\<lparr>entry := e\<rparr>))) =
              (savedEntries s)[nat (findIndex (\<lambda>x. date x = date e) (savedEntries s)) :=
                 e\<lparr>timestamp := now\<rparr>] \<and>
            nat (findIndex (\<lambda>x. date x = date e) (savedEntries s)) < length (savedEntries s) \<and>
            date (savedEntries s ! nat (findIndex (\<lambda>x. date x = date e) (savedEntries s))) = date e) \<and>
         (date e \<notin> date ` set (savedEntries s) \<longrightarrow>
            savedEntries (fst (saveEntry init now ok (s\<lparr>entry := e\<rparr>))) =
              savedEntries s @ [e\<lparr>timestamp := now\<rparr>])"
proof (intro conjI impI)
  show "distinct (map date (savedEntries (upserts init ops s)))"
    using assms by (rule upserts_distinct)
next
  assume "date e \<in> date ` set (savedEntries s)"
  then have "\<not> findIndex (\<lambda>x. date x = date e) (savedEntries s) < 0"
    unfolding findIndex_neg_iff by auto
  then have nn: "0 \<le> findIndex (\<lambda>x. date x = date e) (savedEntries s)" by simp
  then show "savedEntries (fst (saveEntry init now True (s\<lparr>entry := e\<rparr>))) =
      (savedEntries s)[nat (findIndex (\<lambda>x. date x = date e) (savedEntries s)) :=
         e\<lparr>timestamp := now\<rparr>]"
    by (simp add: saveEntry_savedEntries Let_def)
  from findIndex_hit [OF nn]
  show "nat (findIndex (\<lambda>x. date x = date e) (savedEntries s)) < length (savedEntries s)"
    and "date (savedEntries s ! nat (findIndex (\<lambda>x. date x = date e) (savedEntries s))) = date e"
    by simp_all
next
  assume "date e \<notin> date ` set (savedEntries s)"
  then have "findIndex (\<lambda>x. date x = date e) (savedEntries s) < 0"
    unfolding findIndex_neg_iff by (metis imageI)
  then show "savedEntries (fst (saveEntry init now ok (s\<lparr>entry := e\<rparr>))) =
      savedEntries s @ [e\<lparr>timestamp := now\<rparr>]"
    by (simp add: saveEntry_savedEntries Let_def)
qed

theorem upserts_no_duplicate_dates_witness:
  "distinct (map date (savedEntries state_jan1)) \<and>
   map date (savedEntries (upserts (initialEntry ''2024-01-03'' ''now'')
       [(entry_jan1_other, ''t1'', True), (entry_jan2, ''t2'', False)] state_jan1)) =
     [''2024-01-01'', ''2024-01-02''] \<and>
   savedEntries (fst (saveEntry (initialEntry ''2024-01-03'' ''now'') ''t1'' True
       (state_jan1\<lparr>entry := entry_jan1_other\<rparr>))) = [entry_jan1_other\<lparr>timestamp := ''t1''\<rparr>] \<and>
   savedEntries (fst (saveEntry (initialEntry ''2024-01-03'' ''now'') ''t2'' False
       (state_jan1\<lparr>entry := entry_jan2\<rparr>))) = [entry_jan1, entry_jan2\<lparr>timestamp := ''t2''\<rparr>]"
  using upserts_no_duplicate_dates [of state_jan1 "initialEntry ''2024-01-03'' ''now''"
      "[(entry_jan1_other, ''t1'', True), (entry_jan2, ''t2'', False)]"]
  by (simp add: sample_defs saveEntry_def Let_def)

text \<open>
  C3, as amended. When exactly one saved entry has the date of the working entry, a
  confirmed save puts the working entry, with the new timestamp, at the index of that
  entry; afterwards it is the only entry of that date, the number of entries is the same
  and every other index holds what it held.
\<close>

theorem saveEntry_replaces_in_place:
  assumes "length (filter (\<lambda>x. date x = date (entry s)) (savedEntries s)) = 1"
  shows "let xs = savedEntries s;
             i = nat (findIndex (\<lambda>x. date x = date (entry s)) xs);
             u = (entry s)\<lparr>timestamp := now\<rparr>;
             r = saveEntry init now True s
         in i < length xs \<and> date (xs ! i) = date (entry s) \<and>
            r = (\<lparr>entry = init, savedEntries = xs[i := u], stored = Some (xs[i := u])\<rparr>, Saved) \<and>
            filter (\<lambda>x. date x = date (entry s)) (savedEntries (fst r)) = [u] \<and>
            length (savedEntries (fst r)) = length xs \<and>
            (\<forall>j<length xs. j \<noteq> i \<longrightarrow> savedEntries (fst r) ! j = xs ! j) \<and>
            (\<forall>j<length xs. date (xs ! j) \<noteq> date (entry s) \<longrightarrow> savedEntries (fst r) ! j = xs ! j)"
proof -
  define xs where "xs = savedEntries s"
  define D where "D = date (entry s)"
  define i where "i = nat (findIndex (\<lambda>x. date x = D) xs)"
  define u where "u = (entry s)\<lparr>timestamp := now\<rparr>"
  from assms have "filter (\<lambda>x. date x = D) xs \<noteq> []"
    unfolding xs_def D_def by auto
  then have "\<exists>x\<in>set xs. date x = D"
    by (simp add: filter_empty_conv)
  then have nn: "0 \<le> findIndex (\<lambda>x. date x = D) xs"
    by (simp add: findIndex_nonneg_iff)
  from findIndex_hit [OF nn] have i: "i < length xs" and di: "date (xs ! i) = D"
    by (simp_all add: i_def)
  have r: "saveEntry init now True s =
      (\<lparr>entry = init, savedEntries = xs[i := u], stored = Some (xs[i := u])\<rparr>, Saved)"
    using nn by (simp add: saveEntry_def Let_def xs_def D_def i_def u_def)
  have "date u = D" by (simp add: u_def D_def)
  with i di assms have f: "filter (\<lambda>x. date x = D) (xs[i := u]) = [u]"
    by (intro filter_update_unique) (simp_all add: xs_def D_def)
  have "\<forall>j<length xs. date (xs ! j) \<noteq> D \<longrightarrow> xs[i := u] ! j = xs ! j"
    using di by (metis nth_list_update_neq)
  with i di r f show ?thesis
    unfolding Let_def xs_def [symmetric] D_def [symmetric] i_def [symmetric] u_def [symmetric]
    by simp
qed

theorem saveEntry_replaces_in_place_witness:
  "length (filter (\<lambda>x. date x = date (entry (state_jan1\<lparr>entry := entry_jan1_other\<rparr>)))
      (savedEntries (state_jan1\<lparr>entry := entry_jan1_other\<rparr>))) = 1 \<and>
   saveEntry (initialEntry ''2024-01-03'' ''now'') ''t1'' True
      (state_jan1\<lparr>entry := entry_jan1_other\<rparr>) =
     (\<lparr>entry = initialEntry ''2024-01-03'' ''now'',
       savedEntries = [entry_jan1_other\<lparr>timestamp := ''t1''\<rparr>],
       stored = Some [entry_jan1_other\<lparr>timestamp := ''t1''\<rparr>]\<rparr>, Saved)"
  using saveEntry_replaces_in_place [of "state_jan1\<lparr>entry := entry_jan1_other\<rparr>" "''t1''"
      "initialEntry ''2024-01-03'' ''now''"]
  by (simp add: sample_defs saveEntry_def Let_def)

text \<open>
  C3 as stated fails when the date is saved more than once. Importing a document with two
  entries dated 2024-01-01 into the empty store saves both; a confirmed save for that date
  then replaces the first of them only, and two entries of that date remain.
\<close>

theorem saveEntry_duplicate_store_counterexample:
  "savedEntries (fst (importData getTime_sample
      (Some (Inr (document_of [entry_jan1, entry_jan1_other]))) state_start)) =
     [entry_jan1, entry_jan1_other] \<and>
   savedEntries (fst (saveEntry (initialEntry ''2024-01-03'' ''now'') ''t1'' True
      ((fst (importData getTime_sample
          (Some (Inr (document_of [entry_jan1, entry_jan1_other]))) state_start))
       \<lparr>entry := (initialEntry ''2024-01-01'' ''t0'')\<lparr>mainGoal := ''Swim''\<rparr>\<rparr>))) =
     [(initialEntry ''2024-01-01'' ''t1'')\<lparr>mainGoal := ''Swim''\<rparr>, entry_jan1_other] \<and>
   length (filter (\<lambda>x. date x = ''2024-01-01'')
     (savedEntries (fst (saveEntry (initialEntry ''2024-01-03'' ''now'') ''t1'' True
      ((fst (importData getTime_sample
          (Some (Inr (document_of [entry_jan1, entry_jan1_other]))) state_start))
       \<lparr>entry := (initialEntry ''2024-01-01'' ''t0'')\<lparr>mainGoal := ''Swim''\<rparr>\<rparr>))))) = 2"
  by (simp add: sample_defs import_defs saveEntry_def)

text \<open>
  C4. The effect that loads the saved entries calls \<open>JSON.parse\<close> outside any \<open>try\<close>:
  on a stored text that does not parse, the SyntaxError leaves the effect; a stored text
  \<open>{}\<close> parses and the object becomes the value of \<open>savedEntries\<close>. Only a missing or
  empty item leaves the store empty.
\<close>

theorem load_raises_on_bad_storage:
  "load (Some ''{oops'') (Inl SyntaxError) savedTheme = Inl SyntaxError \<and>
   load (Some ''{}'') (Inr (JObject [])) None = Inr (JObject [], True) \<and>
   load None parsed None = Inr (JArray [], True) \<and>
   load (Some '''') parsed None = Inr (JArray [], True)"
  by (simp add: load_def)

text \<open>
  C5. A file that is not JSON, or whose top-level value is not an object with an array in
  the field \<open>entries\<close>, is rejected with the error alert and the state, the saved entries
  and the storage with it, stays as it was. A document of the right shape is never
  rejected.
\<close>

theorem importData_rejects_bad_format:
  "(\<not> (\<exists>v. parsed = Inr v \<and> has_entries_array v) \<longrightarrow>
      importData getTime (Some parsed) s = (s, ImportError)) \<and>
   ((\<exists>v. parsed = Inr v \<and> has_entries_array v) \<longrightarrow>
      snd (importData getTime (Some parsed) s) \<noteq> ImportError)"
proof (cases parsed)
  case (Inl e)
  then show ?thesis by (simp add: importData_def importTry_def)
next
  case (Inr v)
  show ?thesis
  proof (cases "has_entries_array v")
    case True
    then obtain kvs where v: "v = JObject kvs"
      by (cases v) (simp_all add: has_entries_array_def)
    with True obtain w where w: "map_of kvs ''entries'' = Some w"
      by (cases "map_of kvs ''entries''") (simp_all add: has_entries_array_def)
    with True v obtain es where "w = JArray es"
      by (cases w) (simp_all add: has_entries_array_def)
    with v w have "get_entries v = Inr (JArray es)" by simp
    from importData_ok [OF this] Inr True show ?thesis by simp
  next
    case False
    have "importTry getTime (Inr v) (savedEntries s) = Inl TypeError \<or>
          importTry getTime (Inr v) (savedEntries s) = Inl (Error ''Invalid file format'')"
    proof (cases v)
      case (JObject kvs)
      show ?thesis
      proof (cases "map_of kvs ''entries''")
        case None
        with JObject show ?thesis by (simp add: importTry_def)
      next
        case (Some w)
        with False JObject have "\<not> isArray w"
          by (cases w) (simp_all add: has_entries_array_def)
        with Some JObject show ?thesis by (simp add: importTry_def)
      qed
    qed (simp_all add: importTry_def)
    then have "importData getTime (Some (Inr v)) s = (s, ImportError)"
      by (auto simp: importData_def)
    with Inr False show ?thesis by simp
  qed
qed

theorem importData_rejects_bad_format_witness:
  "\<not> has_entries_array (JObject [(''foo'', JNumber 1)]) \<and>
   importData getTime_sample (Some (Inr (JObject [(''foo'', JNumber 1)]))) state_jan1 =
     (state_jan1, ImportError) \<and>
   importData getTime_sample (Some (Inl SyntaxError)) state_jan1 = (state_jan1, ImportError)"
  using importData_rejects_bad_format [of "Inr (JObject [(''foo'', JNumber 1)])" getTime_sample state_jan1]
    importData_rejects_bad_format [of "Inl SyntaxError" getTime_sample state_jan1]
  by (simp add: has_entries_array_def)

text \<open>
  C6. Importing the exported document into a store with no saved entries gives a store
  with the same entries as the exported one, up to order, and reports all of them as
  imported and none as skipped. The document is passed as the value that \<open>JSON.parse\<close>
  returns for the text \<open>JSON.stringify\<close> wrote.
\<close>

theorem export_import_roundtrip:
  "let doc = fst (exportData exportISO nameISO s);
       r = importData getTime (Some (Inr doc)) \<lparr>entry = e, savedEntries = [], stored = st\<rparr>
   in mset (savedEntries (fst r)) = mset (savedEntries s) \<and>
      length (savedEntries (fst r)) = length (savedEntries s) \<and>
      stored (fst r) = Some (savedEntries (fst r)) \<and>
      snd r = Imported (length (savedEntries s)) 0"
proof -
  have g: "get_entries (fst (exportData exportISO nameISO s)) = Inr (JArray (savedEntries s))"
    by (simp add: exportData_def dataToExport_def)
  have "mset (array_sort (compareDates getTime) (savedEntries s)) = mset (savedEntries s)"
    by (rule mset_array_sort)
  moreover from this
  have "length (array_sort (compareDates getTime) (savedEntries s)) = length (savedEntries s)"
    by (rule mset_eq_length)
  ultimately show ?thesis
    unfolding Let_def importData_ok [OF g] by simp
qed

theorem export_import_roundtrip_witness:
  "importData getTime_sample
     (Some (Inr (fst (exportData ''2024-01-03T08:00:00.000Z'' ''2024-01-03T08:00:00.001Z''
        (state_jan1\<lparr>savedEntries := [entry_jan2, entry_jan1]\<rparr>))))) state_start =
     (state_start\<lparr>savedEntries := [entry_jan1, entry_jan2],
                  stored := Some [entry_jan1, entry_jan2]\<rparr>, Imported 2 0) \<and>
   snd (exportData ''2024-01-03T08:00:00.000Z'' ''2024-01-03T08:00:00.001Z''
        (state_jan1\<lparr>savedEntries := [entry_jan2, entry_jan1]\<rparr>)) =
     (''journal-entries-2024-01-03.json'', 2)"
  using export_import_roundtrip [of "''2024-01-03T08:00:00.000Z''" "''2024-01-03T08:00:00.001Z''"
      "state_jan1\<lparr>savedEntries := [entry_jan2, entry_jan1]\<rparr>" getTime_sample
      "entry state_start" None]
  by (simp add: sample_defs import_defs exportData_def dataToExport_def)

text \<open>
  C10. The import filters the payload against the dates saved before the import only. For
  a date that is not saved, every payload entry of that date is in the merged array, as
  often as in the payload; with two or more of them the merged array has a date twice.
\<close>

theorem importData_keeps_payload_duplicates:
  assumes "get_entries importedData = Inr (JArray payload)"
    and "D \<notin> date ` set (savedEntries s)"
  shows "let merged = savedEntries (fst (importData getTime (Some (Inr importedData)) s))
         in filter_mset (\<lambda>e. date e = D) (mset merged) =
              filter_mset (\<lambda>e. date e = D) (mset payload) \<and>
            length (filter (\<lambda>e. date e = D) merged) =
              length (filter (\<lambda>e. date e = D) payload) \<and>
            (2 \<le> length (filter (\<lambda>e. date e = D) payload) \<longrightarrow>
               \<not> distinct (map date merged))"
proof -
  define saved where "saved = savedEntries s"
  define new where "new = filter (\<lambda>e. date e \<notin> set (map date saved)) payload"
  define merged where "merged = array_sort (compareDates getTime) (saved @ new)"
  have r: "savedEntries (fst (importData getTime (Some (Inr importedData)) s)) = merged"
    by (simp add: importData_ok [OF assms(1)] merged_def new_def saved_def)
  have "filter (\<lambda>e. date e = D) saved = []"
    using assms(2) by (auto simp: saved_def filter_empty_conv)
  then have s0: "filter_mset (\<lambda>e. date e = D) (mset saved) = {#}"
    by (metis mset_filter mset.simps(1))
  have "filter (\<lambda>e. date e = D) new = filter (\<lambda>e. date e = D) payload"
    unfolding new_def filter_filter
    by (rule filter_cong) (use assms(2) in \<open>auto simp: saved_def\<close>)
  then have n0: "filter_mset (\<lambda>e. date e = D) (mset new) =
      filter_mset (\<lambda>e. date e = D) (mset payload)"
    by (metis mset_filter)
  have m: "filter_mset (\<lambda>e. date e = D) (mset merged) =
      filter_mset (\<lambda>e. date e = D) (mset payload)"
    by (simp add: merged_def mset_array_sort s0 n0)
  then have "mset (filter (\<lambda>e. date e = D) merged) = mset (filter (\<lambda>e. date e = D) payload)"
    by simp
  then have l: "length (filter (\<lambda>e. date e = D) merged) =
      length (filter (\<lambda>e. date e = D) payload)"
    by (rule mset_eq_length)
  have "2 \<le> length (filter (\<lambda>e. date e = D) payload) \<longrightarrow> \<not> distinct (map date merged)"
    using distinct_map_filter_le1 [of date merged D] l by auto
  with m l show ?thesis unfolding Let_def r by simp
qed

theorem importData_keeps_payload_duplicates_witness:
  "get_entries (document_of [entry_jan1, entry_jan1_other]) =
     Inr (JArray [entry_jan1, entry_jan1_other]) \<and>
   ''2024-01-01'' \<notin> date ` set (savedEntries state_start) \<and>
   savedEntries (fst (importData getTime_sample
      (Some (Inr (document_of [entry_jan1, entry_jan1_other]))) state_start)) =
     [entry_jan1, entry_jan1_other] \<and>
   \<not> distinct (map date (savedEntries (fst (importData getTime_sample
      (Some (Inr (document_of [entry_jan1, entry_jan1_other]))) state_start))))"
  using importData_keeps_payload_duplicates [of "document_of [entry_jan1, entry_jan1_other]"
      "[entry_jan1, entry_jan1_other]" "''2024-01-01''" state_start getTime_sample]
  by (simp add: sample_defs import_defs)

section \<open>Properties of the stats engine\<close>

text \<open>
  C7, as amended. For an entry with fewer than \<open>2^32\<close> todos (the limit of a JavaScript
  array), the statistics count the todos, the completed ones, the high-priority ones and
  the completed high-priority ones. Each rate is 0 when its denominator is 0. Otherwise it
  is \<open>Math.round\<close> of the binary64 product of the quotient of the two counts and 100: an
  integer from 0 to 100 that differs from 100 times the exact quotient by at most one
  half. It is the rounding of that exact percentage, the half rounded up, whenever the
  percentage is not exactly half-way between two integers, and that rounding or one less
  when it is. For the single completed high-priority todo \<open>A\<close> all four counts are 1 and
  both rates are 100.
\<close>

theorem getProductivityStats_rates:
  assumes "length (todos e) < 2 ^ 32"
  shows "let st = getProductivityStats e
         in total st = length (todos e) \<and>
            completedCount st = length (filter completed (todos e)) \<and>
            highPriority st = length (filter (\<lambda>t. priority t = High) (todos e)) \<and>
            completedHigh st =
              length (filter (\<lambda>t. priority t = High \<and> completed t) (todos e)) \<and>
            (total st = 0 \<longrightarrow> completionRate st = 0) \<and>
            (0 < total st \<longrightarrow>
               \<bar>of_int (completionRate st) -
                  100 * of_nat (completedCount st) / (of_nat (total st) :: rat)\<bar> \<le> 1 / 2) \<and>
            (highPriority st = 0 \<longrightarrow> highPriorityRate st = 0) \<and>
            (0 < highPriority st \<longrightarrow>
               \<bar>of_int (highPriorityRate st) -
                  100 * of_nat (completedHigh st) / (of_nat (highPriority st) :: rat)\<bar> \<le> 1 / 2) \<and>
            (0 < total st \<longrightarrow>
               (completionRate st =
                  Math_round (100 * of_nat (completedCount st) / of_nat (total st)) \<or>
                completionRate st =
                  Math_round (100 * of_nat (completedCount st) / of_nat (total st)) - 1) \<and>
               (100 * of_nat (completedCount st) / (of_nat (total st) :: rat) + 1 / 2 \<notin> \<int> \<longrightarrow>
                  completionRate st =
                    Math_round (100 * of_nat (completedCount st) / of_nat (total st)))) \<and>
            (0 < highPriority st \<longrightarrow>
               (highPriorityRate st =
                  Math_round (100 * of_nat (completedHigh st) / of_nat (highPriority st)) \<or>
                highPriorityRate st =
                  Math_round (100 * of_nat (completedHigh st) / of_nat (highPriority st)) - 1) \<and>
               (100 * of_nat (completedHigh st) / (of_nat (highPriority st) :: rat) + 1 / 2 \<notin> \<int> \<longrightarrow>
                  highPriorityRate st =
                    Math_round (100 * of_nat (completedHigh st) / of_nat (highPriority st)))) \<and>
            0 \<le> completionRate st \<and> completionRate st \<le> 100 \<and>
            0 \<le> highPriorityRate st \<and> highPriorityRate st \<le> 100 \<and>
            (todos e = [\<lparr>todo_text = ''A'', completed = True, priority = High\<rparr>] \<longrightarrow>
               st = \<lparr>total = 1, completedCount = 1, completionRate = 100,
                     highPriority = 1, completedHigh = 1, highPriorityRate = 100\<rparr>)"
proof -
  define n where "n = length (todos e)"
  define c where "c = length (filter completed (todos e))"
  define h where "h = length (filter (\<lambda>t. priority t = High) (todos e))"
  define ch where "ch = length (filter (\<lambda>t. priority t = High \<and> completed t) (todos e))"
  have cn: "c \<le> n" by (simp add: c_def n_def)
  have hn: "h \<le> n" by (simp add: h_def n_def)
  have "ch = length (filter completed (filter (\<lambda>t. priority t = High) (todos e)))"
    by (simp add: ch_def conj_commute)
  then have chh: "ch \<le> h" by (simp only: h_def length_filter_le)
  from assms have n32: "n < 2 ^ 32" by (simp add: n_def)
  with hn have h32: "h < 2 ^ 32" by simp
  have st: "getProductivityStats e =
      \<lparr>total = n, completedCount = c,
       completionRate =
         (if n > 0 then Math_round (times_num (divide_num (of_nat c) (of_nat n)) 100) else 0),
       highPriority = h, completedHigh = ch,
       highPriorityRate =
         (if h > 0 then Math_round (times_num (divide_num (of_nat ch) (of_nat h)) 100) else 0)\<rparr>"
    by (simp add: getProductivityStats_def Let_def n_def c_def h_def ch_def)
  have r1: "0 < n \<longrightarrow>
      \<bar>of_int (Math_round (times_num (divide_num (of_nat c) (of_nat n)) 100)) -
         100 * of_nat c / (of_nat n :: rat)\<bar> \<le> 1 / 2"
    using percent_nearest [OF cn _ n32] by simp
  have r2: "0 < h \<longrightarrow>
      \<bar>of_int (Math_round (times_num (divide_num (of_nat ch) (of_nat h)) 100)) -
         100 * of_nat ch / (of_nat h :: rat)\<bar> \<le> 1 / 2"
    using percent_nearest [OF chh _ h32] by simp
  have e1: "0 < n \<longrightarrow>
      (Math_round (times_num (divide_num (of_nat c) (of_nat n)) 100) =
         Math_round (100 * of_nat c / of_nat n) \<or>
       Math_round (times_num (divide_num (of_nat c) (of_nat n)) 100) =
         Math_round (100 * of_nat c / of_nat n) - 1) \<and>
      (100 * of_nat c / (of_nat n :: rat) + 1 / 2 \<notin> \<int> \<longrightarrow>
         Math_round (times_num (divide_num (of_nat c) (of_nat n)) 100) =
           Math_round (100 * of_nat c / of_nat n))"
    using r1 nearest_is_round by blast
  have e2: "0 < h \<longrightarrow>
      (Math_round (times_num (divide_num (of_nat ch) (of_nat h)) 100) =
         Math_round (100 * of_nat ch / of_nat h) \<or>
       Math_round (times_num (divide_num (of_nat ch) (of_nat h)) 100) =
         Math_round (100 * of_nat ch / of_nat h) - 1) \<and>
      (100 * of_nat ch / (of_nat h :: rat) + 1 / 2 \<notin> \<int> \<longrightarrow>
         Math_round (times_num (divide_num (of_nat ch) (of_nat h)) 100) =
           Math_round (100 * of_nat ch / of_nat h))"
    using r2 nearest_is_round by blast
  have b1: "0 < n \<longrightarrow> 0 \<le> Math_round (times_num (divide_num (of_nat c) (of_nat n)) 100) \<and>
      Math_round (times_num (divide_num (of_nat c) (of_nat n)) 100) \<le> 100"
    using percent_range [OF cn _ n32] by simp
  have b2: "0 < h \<longrightarrow> 0 \<le> Math_round (times_num (divide_num (of_nat ch) (of_nat h)) 100) \<and>
      Math_round (times_num (divide_num (of_nat ch) (of_nat h)) 100) \<le> 100"
    using percent_range [OF chh _ h32] by simp
  have ex: "todos e = [\<lparr>todo_text = ''A'', completed = True, priority = High\<rparr>] \<longrightarrow>
      getProductivityStats e = \<lparr>total = 1, completedCount = 1, completionRate = 100,
                     highPriority = 1, completedHigh = 1, highPriorityRate = 100\<rparr>"
    by (simp add: getProductivityStats_def Let_def percent_all)
  show ?thesis
    unfolding Let_def
    using r1 r2 e1 e2 b1 b2 ex
    by (simp add: st percent_all
        n_def [symmetric] c_def [symmetric] h_def [symmetric] ch_def [symmetric])
qed

theorem getProductivityStats_rates_witness:
  "length (todos ((initialEntry ''2024-01-01'' ''now'')\<lparr>todos := [todo_A]\<rparr>)) < 2 ^ 32 \<and>
   getProductivityStats ((initialEntry ''2024-01-01'' ''now'')\<lparr>todos := [todo_A]\<rparr>) =
     \<lparr>total = 1, completedCount = 1, completionRate = 100,
      highPriority = 1, completedHigh = 1, highPriorityRate = 100\<rparr> \<and>
   getProductivityStats (initialEntry ''2024-01-01'' ''now'') =
     \<lparr>total = 0, completedCount = 0, completionRate = 0,
      highPriority = 0, completedHigh = 0, highPriorityRate = 0\<rparr>"
  using getProductivityStats_rates [of "(initialEntry ''2024-01-01'' ''now'')\<lparr>todos := [todo_A]\<rparr>"]
  by (simp add: initialEntry_def todo_A_def getProductivityStats_def Let_def)

text \<open>
  C7 as stated fails at an exact half. With 23 of 40 todos completed the percentage is
  57.5, which rounds to 58. The code divides first: the binary64 quotient of 23 and 40
  lies just below 0.575, its product with 100 is the binary64 value just below 57.5, and
  \<open>Math.round\<close> gives 57.
\<close>

theorem getProductivityStats_half_counterexample:
  "total (getProductivityStats entry_23_of_40) = 40 \<and>
   completedCount (getProductivityStats entry_23_of_40) = 23 \<and>
   completionRate (getProductivityStats entry_23_of_40) = 57 \<and>
   Math_round (100 * 23 / 40) = 58 \<and>
   completionRate (getProductivityStats entry_23_of_40) \<noteq>
     Math_round (100 * of_nat (completedCount (getProductivityStats entry_23_of_40)) /
                 of_nat (total (getProductivityStats entry_23_of_40)))"
proof -
  have st: "getProductivityStats entry_23_of_40 =
      \<lparr>total = 40, completedCount = 23, completionRate = 57,
       highPriority = 23, completedHigh = 23, highPriorityRate = 100\<rparr>"
    by code_simp
  have r: "Math_round (100 * 23 / 40) = 58"
    by (simp add: Math_round_def)
  show ?thesis
    unfolding st using r by simp
qed

text \<open>
  C8. With ratings from 0 to 5 and fewer than \<open>2^32\<close> entries, the averaging population
  is the saved entries and the working entry that have a rating other than zero. When it
  is empty the block returns \<open>null\<close>. Otherwise each average shown is the number for
  \<open>n / 10\<close>, where \<open>n / 10\<close> differs by at most one twentieth from the sum of that
  rating over the whole population divided by the size of the population: the mean
  rounded to one decimal place.
\<close>

theorem ratingAverages_population_means:
  assumes "\<forall>e \<in> set (savedEntries s @ [entry s]). valid_ratings e"
    and "length (savedEntries s) < 2 ^ 32 - 1"
  shows "let population = filter rated (savedEntries s @ [entry s])
         in (population = [] \<longrightarrow> ratingAverages s = None) \<and>
            (population \<noteq> [] \<longrightarrow>
               (\<exists>n_overall n_energy n_productivity n_mood.
                  ratingAverages s =
                    Some \<lparr>avg_overall = Number_tenths n_overall,
                          avg_energy = Number_tenths n_energy,
                          avg_productivity = Number_tenths n_productivity,
                          avg_mood = Number_tenths n_mood\<rparr> \<and>
                  \<bar>of_int n_overall / 10 - mean (\<lambda>e. overall (ratings e)) population\<bar> \<le> 1 / 20 \<and>
                  \<bar>of_int n_energy / 10 - mean (\<lambda>e. energy (ratings e)) population\<bar> \<le> 1 / 20 \<and>
                  \<bar>of_int n_productivity / 10 -
                     mean (\<lambda>e. productivity (ratings e)) population\<bar> \<le> 1 / 20 \<and>
                  \<bar>of_int n_mood / 10 - mean (\<lambda>e. mood (ratings e)) population\<bar> \<le> 1 / 20))"
proof -
  define pop where "pop = filter rated (savedEntries s @ [entry s])"
  have v: "\<forall>e \<in> set pop. valid_ratings e"
    using assms(1) by (simp add: pop_def)
  have "\<forall>e \<in> set (savedEntries s @ [entry s]).
      (overall (ratings e) > 0 \<or> energy (ratings e) > 0 \<or>
       productivity (ratings e) > 0 \<or> mood (ratings e) > 0) = rated e"
    using assms(1) by (auto simp: valid_ratings_def rated_def)
  then have all: "filter (\<lambda>e. overall (ratings e) > 0 \<or> energy (ratings e) > 0 \<or>
      productivity (ratings e) > 0 \<or> mood (ratings e) > 0) (savedEntries s @ [entry s]) = pop"
    unfolding pop_def by (intro filter_cong) auto
  have "length pop \<le> length (savedEntries s @ [entry s])"
    unfolding pop_def by (rule length_filter_le)
  with assms(2) have len: "length pop < 2 ^ 32" by simp
  have none: "pop = [] \<longrightarrow> ratingAverages s = None"
    unfolding ratingAverages_def all Let_def by simp
  have some: "pop \<noteq> [] \<longrightarrow>
      ratingAverages s =
        Some \<lparr>avg_overall = Number_tenths (toFixed1 (divide_num
                 (of_int (sum_list (map (\<lambda>e. overall (ratings e)) pop))) (of_nat (length pop)))),
              avg_energy = Number_tenths (toFixed1 (divide_num
                 (of_int (sum_list (map (\<lambda>e. energy (ratings e)) pop))) (of_nat (length pop)))),
              avg_productivity = Number_tenths (toFixed1 (divide_num
                 (of_int (sum_list (map (\<lambda>e. productivity (ratings e)) pop))) (of_nat (length pop)))),
              avg_mood = Number_tenths (toFixed1 (divide_num
                 (of_int (sum_list (map (\<lambda>e. mood (ratings e)) pop))) (of_nat (length pop))))\<rparr>"
    unfolding ratingAverages_def all Let_def foldl_plus_sum_list by simp
  have near: "pop \<noteq> [] \<longrightarrow>
      \<bar>of_int (toFixed1 (divide_num (of_int (sum_list (map f pop))) (of_nat (length pop)))) / 10 -
         mean f pop\<bar> \<le> 1 / 20"
    if "\<forall>e \<in> set pop. 0 \<le> f e \<and> f e \<le> 5" for f
    using average_nearest [OF that _ len] by (simp add: mean_def)
  have n1: "\<forall>e \<in> set pop. 0 \<le> overall (ratings e) \<and> overall (ratings e) \<le> 5"
    and n2: "\<forall>e \<in> set pop. 0 \<le> energy (ratings e) \<and> energy (ratings e) \<le> 5"
    and n3: "\<forall>e \<in> set pop. 0 \<le> productivity (ratings e) \<and> productivity (ratings e) \<le> 5"
    and n4: "\<forall>e \<in> set pop. 0 \<le> mood (ratings e) \<and> mood (ratings e) \<le> 5"
    using v by (simp_all add: valid_ratings_def)
  show ?thesis
    unfolding Let_def pop_def [symmetric]
    using none some near [OF n1] near [OF n2] near [OF n3] near [OF n4]
    by blast
qed

theorem ratingAverages_population_means_witness:
  "valid_ratings (entry state_rated) \<and>
   valid_ratings (savedEntries state_rated ! 0) \<and> valid_ratings (savedEntries state_rated ! 1) \<and>
   length (savedEntries state_rated) < 2 ^ 32 - 1 \<and>
   filter rated (savedEntries state_rated @ [entry state_rated]) =
     [savedEntries state_rated ! 0, entry state_rated] \<and>
   ratingAverages state_rated =
     Some \<lparr>avg_overall = 9 / 2, avg_energy = 0, avg_productivity = 0, avg_mood = 3 / 2\<rparr> \<and>
   ratingAverages state_jan1 = None"
  using ratingAverages_population_means [of state_rated] ratingAverages_state_rated
  by (simp add: sample_defs state_rated_def valid_ratings_def rated_def ratingAverages_def)

text \<open>
  C9. With ratings from 0 to 5 and fewer than \<open>2^32\<close> todos in each saved entry, the
  insights over the last seven saved entries are, in this order, one message for each
  threshold that fires: mean mood at least 4, mean mood at most 2, completion rate at
  least 80, completion rate at most 50, mean productivity at least 4, and at least 7 saved
  entries. The means and the rate are the exact quotients: the comparisons of the
  binary64 values decide the same. When no threshold fires, and when nothing is saved,
  the default message is the only one.
\<close>

theorem insights_thresholds:
  assumes "\<forall>e \<in> set (savedEntries s). valid_ratings e \<and> length (todos e) < 2 ^ 32"
  shows "(savedEntries s = [] \<longrightarrow> insights s = [KeepJournaling]) \<and>
         (savedEntries s \<noteq> [] \<longrightarrow>
            (let recent = drop (length (savedEntries s) - 7) (savedEntries s);
                 fired =
                   (if 4 \<le> mean (\<lambda>e. mood (ratings e)) recent then [GreatSpirits] else []) @
                   (if mean (\<lambda>e. mood (ratings e)) recent \<le> 2 then [SelfCare] else []) @
                   (if 80 \<le> completion_percent recent then [ExcellentCompletion] else []) @
                   (if completion_percent recent \<le> 50 then [BreakDownTasks] else []) @
                   (if 4 \<le> mean (\<lambda>e. productivity (ratings e)) recent
                    then [StrongProductivity] else []) @
                   (if 7 \<le> length (savedEntries s)
                    then [Streak (length (savedEntries s))] else [])
             in insights s = (if fired = [] then [KeepJournaling] else fired)))"
proof (intro conjI impI)
  assume "savedEntries s = []"
  then show "insights s = [KeepJournaling]"
    by (simp add: insights_def)
next
  assume ne: "savedEntries s \<noteq> []"
  define recent where "recent = drop (length (savedEntries s) - 7) (savedEntries s)"
  define k where "k = length recent"
  define M where "M = sum_list (map (\<lambda>e. mood (ratings e)) recent)"
  define P where "P = sum_list (map (\<lambda>e. productivity (ratings e)) recent)"
  define T where "T = sum_list (map (\<lambda>e. length (todos e)) recent)"
  define C where "C = sum_list (map (\<lambda>e. length (filter completed (todos e))) recent)"
  have sub: "set recent \<subseteq> set (savedEntries s)"
    unfolding recent_def by (rule set_drop_subset)
  have k0: "0 < k" using ne by (cases "savedEntries s") (simp_all add: k_def recent_def)
  have k7: "k \<le> 7" by (simp add: k_def recent_def)
  then have k32: "k < 2 ^ 32" by simp
  have vm: "\<forall>e\<in>set recent. 0 \<le> mood (ratings e) \<and> mood (ratings e) \<le> 5"
    and vp: "\<forall>e\<in>set recent. 0 \<le> productivity (ratings e) \<and> productivity (ratings e) \<le> 5"
    using assms sub by (auto simp: valid_ratings_def)
  from sum_list_bounds [OF vm] have M: "0 \<le> M" "M \<le> 5 * int k" by (simp_all add: M_def k_def)
  from sum_list_bounds [OF vp] have P: "0 \<le> P" "P \<le> 5 * int k" by (simp_all add: P_def k_def)
  have CT: "C \<le> T"
    unfolding C_def T_def by (intro sum_list_mono) simp
  have "\<forall>e\<in>set recent. length (todos e) \<le> 2 ^ 32"
    using assms sub by (auto intro: less_imp_le)
  from sum_list_le_length_times [OF this] have "T \<le> k * 2 ^ 32"
    by (simp add: T_def k_def)
  also have "\<dots> \<le> 7 * 2 ^ 32" using k7 by simp
  finally have T35: "T < 2 ^ 35" by simp
  have m4: "(4 \<le> divide_num (of_int M) (of_nat k)) = (4 \<le> (of_int M / of_nat k :: rat))"
    using average_threshold(1) [OF M k0 k32, of 4] binary64_4 by simp
  have m2: "(divide_num (of_int M) (of_nat k) \<le> 2) = ((of_int M / of_nat k :: rat) \<le> 2)"
    using average_threshold(2) [OF M k0 k32, of 2] binary64_2 by simp
  have p4: "(4 \<le> divide_num (of_int P) (of_nat k)) = (4 \<le> (of_int P / of_nat k :: rat))"
    using average_threshold(1) [OF P k0 k32, of 4] binary64_4 by simp
  have r80: "0 < T \<longrightarrow> (80 \<le> times_num (divide_num (of_nat C) (of_nat T)) 100) =
      (80 \<le> 100 * (of_nat C :: rat) / of_nat T)"
    using rate_threshold_80 [OF CT _ T35] by simp
  have r50: "0 < T \<longrightarrow> (times_num (divide_num (of_nat C) (of_nat T)) 100 \<le> 50) =
      (100 * (of_nat C :: rat) / of_nat T \<le> 50)"
    using rate_threshold_50 [OF CT _ T35] by simp
  have ins: "insights s =
      (let found = (if 4 \<le> (of_int M / of_nat k :: rat) then [GreatSpirits]
                    else if (of_int M / of_nat k :: rat) \<le> 2 then [SelfCare] else []) @
                   (if 80 \<le> completion_percent recent then [ExcellentCompletion]
                    else if completion_percent recent \<le> 50 then [BreakDownTasks] else []) @
                   (if 4 \<le> (of_int P / of_nat k :: rat) then [StrongProductivity] else []) @
                   (if 7 \<le> length (savedEntries s)
                    then [Streak (length (savedEntries s))] else [])
       in if found = [] then [KeepJournaling] else found)"
  proof (cases "0 < T")
    case True
    with r80 r50 show ?thesis
      unfolding insights_unfold [OF ne] Let_def recent_def [symmetric]
        k_def [symmetric] M_def [symmetric] P_def [symmetric] T_def [symmetric] C_def [symmetric]
        completion_percent_def m4 m2 p4
      by simp
  next
    case False
    then show ?thesis
      unfolding insights_unfold [OF ne] Let_def recent_def [symmetric]
        k_def [symmetric] M_def [symmetric] P_def [symmetric] T_def [symmetric] C_def [symmetric]
        completion_percent_def m4 m2 p4
      by simp
  qed
  have excl1: "\<not> (4 \<le> (of_int M / of_nat k :: rat) \<and> (of_int M / of_nat k :: rat) \<le> 2)"
    by linarith
  have excl2: "\<not> (80 \<le> completion_percent recent \<and> completion_percent recent \<le> 50)"
    by linarith
  show "let recent = drop (length (savedEntries s) - 7) (savedEntries s);
            fired =
              (if 4 \<le> mean (\<lambda>e. mood (ratings e)) recent then [GreatSpirits] else []) @
              (if mean (\<lambda>e. mood (ratings e)) recent \<le> 2 then [SelfCare] else []) @
              (if 80 \<le> completion_percent recent then [ExcellentCompletion] else []) @
              (if completion_percent recent \<le> 50 then [BreakDownTasks] else []) @
              (if 4 \<le> mean (\<lambda>e. productivity (ratings e)) recent
               then [StrongProductivity] else []) @
              (if 7 \<le> length (savedEntries s)
               then [Streak (length (savedEntries s))] else [])
        in insights s = (if fired = [] then [KeepJournaling] else fired)"
    unfolding Let_def recent_def [symmetric] mean_def
      k_def [symmetric] M_def [symmetric] P_def [symmetric] ins
    using excl1 excl2 by auto
qed

theorem insights_thresholds_witness:
  "valid_ratings (savedEntries state_steady ! 0) \<and>
   length (todos (savedEntries state_steady ! 0)) < 2 ^ 32 \<and>
   length (savedEntries state_steady) = 1 \<and>
   mean (\<lambda>e. mood (ratings e)) (savedEntries state_steady) = 3 \<and>
   mean (\<lambda>e. productivity (ratings e)) (savedEntries state_steady) = 3 \<and>
   completion_percent (savedEntries state_steady) = 200 / 3 \<and>
   insights state_steady = [KeepJournaling] \<and>
   insights state_rated = [SelfCare, BreakDownTasks] \<and>
   insights state_week = [GreatSpirits, ExcellentCompletion, StrongProductivity, Streak 7]"
proof -
  have v: "valid_ratings (savedEntries state_steady ! 0)"
    and t32: "length (todos (savedEntries state_steady ! 0)) < 2 ^ 32"
    by (simp_all add: stats_sample_defs valid_ratings_def)
  have l: "length (savedEntries state_steady) = 1"
    by (simp add: state_steady_def)
  have only: "set (savedEntries state_steady) = {savedEntries state_steady ! 0}"
    by (simp add: state_steady_def)
  have h: "\<forall>e \<in> set (savedEntries state_steady). valid_ratings e \<and> length (todos e) < 2 ^ 32"
    unfolding only using v t32 by simp
  have ne: "savedEntries state_steady \<noteq> []"
    by (simp add: state_steady_def)
  have m: "mean (\<lambda>e. mood (ratings e)) (savedEntries state_steady) = 3"
    and p: "mean (\<lambda>e. productivity (ratings e)) (savedEntries state_steady) = 3"
    by (simp_all add: stats_sample_defs mean_def)
  have c: "completion_percent (savedEntries state_steady) = 200 / 3"
    by (simp add: stats_sample_defs completion_percent_def)
  have "insights state_steady = [KeepJournaling]"
    using insights_thresholds [OF h, THEN conjunct2, THEN mp, OF ne]
    by (simp add: Let_def m p c l)
  with v t32 l m p c insights_state_rated insights_state_week show ?thesis
    by (simp only: simp_thms)
qed

end
